theory Spec2Isabelle
  imports Complex_Main "HOL-Library.Word"
begin

section \<open>Errors and sequencing\<close>

text \<open>
  The exceptions of the Python code are values. \<open>ValueError\<close> is what numpy raises for
  operands whose shapes do not fit and for an empty concatenation, and what scipy raises
  for a matrix that is not square; \<open>LinAlgError\<close> is what \<open>matrix_power\<close> raises for a
  matrix that is not square, \<open>IndexError\<close> what indexing a column that does not exist
  raises, \<open>ShapeError\<close> and \<open>NonSquareMatrixError\<close> are sympy's,
  \<open>ZeroDivisionError\<close> is Python's own division by zero, and \<open>NotImplementedError\<close> is
  what a solver raises for an equation it cannot solve. A library routine that the
  analysis calls (eigen-decomposition, SVD, the symbolic solver) or a callable that the
  caller supplies may fail with any of them.
\<close>

datatype error =
  ValueError | LinAlgError | IndexError | ShapeError | NonSquareMatrixError
  | ZeroDivisionError | NotImplementedError

text \<open>A list comprehension or a loop whose body may raise: the first error ends it.\<close>

fun traverse :: "('a \<Rightarrow> error + 'b) \<Rightarrow> 'a list \<Rightarrow> error + 'b list" where
  "traverse f [] = Inr []"
| "traverse f (x # xs) =
     (case f x of
        Inl err \<Rightarrow> Inl err
      | Inr y \<Rightarrow> (case traverse f xs of Inl err \<Rightarrow> Inl err | Inr ys \<Rightarrow> Inr (y # ys)))"

section \<open>Arrays and the numeric library\<close>

text \<open>
  A two-dimensional array is its list of rows together with its number of columns, so
  that the shape of an array without rows is still known. Moving entries around
  (transposing, slicing, concatenating) is exact and is defined here. Computing with
  entries is the library's business: numpy multiplies in the dtype of its operands,
  where 64-bit integers wrap around and doubles round, and scipy returns eigenvectors
  in double precision. No such computation is defined here; each is a field of the
  record \<open>numpy\<close> below, of which the analysis is a function.
\<close>

datatype 'a matrix = Matrix (ncols: nat) (rows: "'a list list")

definition nrows :: "'a matrix \<Rightarrow> nat" where
  "nrows M = length (rows M)"

definition wf_matrix :: "'a matrix \<Rightarrow> bool" where
  "wf_matrix M = list_all (\<lambda>r. length r = ncols M) (rows M)"

definition shape :: "'a matrix \<Rightarrow> nat \<times> nat" where
  "shape M = (nrows M, ncols M)"

definition column :: "'a matrix \<Rightarrow> nat \<Rightarrow> 'a list" where
  "column M j = map (\<lambda>r. r ! j) (rows M)"

definition transpose_m :: "'a matrix \<Rightarrow> 'a matrix" where
  "transpose_m M = Matrix (nrows M) (map (column M) [0..<ncols M])"

definition map_matrix :: "('a \<Rightarrow> 'b) \<Rightarrow> 'a matrix \<Rightarrow> 'b matrix" where
  "map_matrix f M = Matrix (ncols M) (map (map f) (rows M))"

text \<open>\<open>np.asmatrix\<close> of a one-dimensional array: a matrix of one row.\<close>

definition asmatrix_1d :: "'a list \<Rightarrow> 'a matrix" where
  "asmatrix_1d v = Matrix (length v) [v]"

text \<open>An array of a given shape whose entry at \<open>(i, j)\<close> is \<open>f i j\<close>.\<close>

definition tabulate :: "nat \<Rightarrow> nat \<Rightarrow> (nat \<Rightarrow> nat \<Rightarrow> 'a) \<Rightarrow> 'a matrix" where
  "tabulate r c f = Matrix c (map (\<lambda>i. map (f i) [0..<c]) [0..<r])"

text \<open>\<open>np.eye\<close> and \<open>np.zeros\<close>: the entries are the doubles \<open>1.0\<close> and \<open>0.0\<close>.\<close>

definition eye :: "nat \<Rightarrow> 'a::{zero,one} matrix" where
  "eye n = tabulate n n (\<lambda>i j. if i = j then 1 else 0)"

definition zeros :: "nat \<Rightarrow> nat \<Rightarrow> 'a::zero matrix" where
  "zeros r c = Matrix c (replicate r (replicate c 0))"

text \<open>
  \<open>np.hstack\<close> and \<open>np.vstack\<close> of two-dimensional arrays: an empty sequence and
  arrays that differ in the other dimension are refused.
\<close>

fun hjoin :: "'a list list \<Rightarrow> 'a list list \<Rightarrow> 'a list list" where
  "hjoin (r # rs) (s # ss) = (r @ s) # hjoin rs ss"
| "hjoin _ _ = []"

definition hstack :: "'a matrix list \<Rightarrow> error + 'a matrix" where
  "hstack Ms =
     (case Ms of
        [] \<Rightarrow> Inl ValueError
      | M # Ns \<Rightarrow>
          if list_all (\<lambda>N. nrows N = nrows M) Ns
          then Inr (foldl (\<lambda>acc N. Matrix (ncols acc + ncols N) (hjoin (rows acc) (rows N))) M Ns)
          else Inl ValueError)"

definition vstack :: "'a matrix list \<Rightarrow> error + 'a matrix" where
  "vstack Ms =
     (case Ms of
        [] \<Rightarrow> Inl ValueError
      | M # Ns \<Rightarrow>
          if list_all (\<lambda>N. ncols N = ncols M) Ns
          then Inr (Matrix (ncols M) (concat (map rows (M # Ns))))
          else Inl ValueError)"

text \<open>
  The numeric library. The type \<open>'a\<close> is that of the entries of the caller's arrays,
  \<open>'c\<close> that of the doubles, real or complex, in which scipy returns eigenvectors and
  in which everything computed from them lives; \<open>0\<close> of type \<open>'c\<close> is the double \<open>0.0\<close>.
  \<^item> \<open>np_eig A left right\<close> is \<open>scipy.linalg.eig\<close>: the eigenvalues and the matrix whose
    columns are the requested eigenvectors, or an error.
  \<^item> \<open>np_conj\<close> conjugates an entry, as \<open>.H\<close> does.
  \<^item> \<open>np_mul X Y i j\<close> is the entry at \<open>(i, j)\<close> of the product \<open>X * Y\<close> of two arrays of
    the caller's dtype, and \<open>np_pow X n i j\<close> that of \<open>X ** n\<close>; \<open>np_mul_c X v i j\<close> is
    the entry of the product of \<open>X\<close> with an array \<open>v\<close> of doubles, and \<open>np_dot_c X x i\<close>
    the entry at \<open>i\<close> of \<open>X.dot(x)\<close> for a one-dimensional \<open>x\<close>. Each may depend on the
    whole operands, so that nothing is said about the order or the precision in which
    the library adds and multiplies.
  \<^item> \<open>np_norm\<close> is \<open>np.linalg.norm\<close>, \<open>np_around d\<close> what \<open>np.around\<close> with \<open>d\<close>
    decimals makes of one entry, and \<open>np_sum\<close> is \<open>np.sum\<close>.
\<close>

record ('a, 'c) numpy =
  np_eig :: "'a matrix \<Rightarrow> bool \<Rightarrow> bool \<Rightarrow> error + ('c list \<times> 'c matrix)"
  np_conj :: "'a \<Rightarrow> 'a"
  np_mul :: "'a matrix \<Rightarrow> 'a matrix \<Rightarrow> nat \<Rightarrow> nat \<Rightarrow> 'a"
  np_pow :: "'a matrix \<Rightarrow> nat \<Rightarrow> nat \<Rightarrow> nat \<Rightarrow> 'a"
  np_mul_c :: "'a matrix \<Rightarrow> 'c matrix \<Rightarrow> nat \<Rightarrow> nat \<Rightarrow> 'c"
  np_dot_c :: "'a matrix \<Rightarrow> 'c list \<Rightarrow> nat \<Rightarrow> 'c"
  np_norm :: "'c matrix \<Rightarrow> 'c"
  np_around :: "nat \<Rightarrow> 'c \<Rightarrow> 'c"
  np_sum :: "'c matrix \<Rightarrow> 'c"

text \<open>\<open>B.H\<close>: the conjugate transpose.\<close>

definition H :: "('a, 'c) numpy \<Rightarrow> 'a matrix \<Rightarrow> 'a matrix" where
  "H np M = map_matrix (np_conj np) (transpose_m M)"

text \<open>The products and the power, for operands whose shapes fit.\<close>

definition mm :: "('a, 'c) numpy \<Rightarrow> 'a matrix \<Rightarrow> 'a matrix \<Rightarrow> 'a matrix" where
  "mm np X Y = tabulate (nrows X) (ncols Y) (np_mul np X Y)"

definition mm_c :: "('a, 'c) numpy \<Rightarrow> 'a matrix \<Rightarrow> 'c matrix \<Rightarrow> 'c matrix" where
  "mm_c np X v = tabulate (nrows X) (ncols v) (np_mul_c np X v)"

definition mpow :: "('a, 'c) numpy \<Rightarrow> 'a matrix \<Rightarrow> nat \<Rightarrow> 'a matrix" where
  "mpow np X n = tabulate (nrows X) (ncols X) (np_pow np X n)"

text \<open>\<open>X * Y\<close> on \<open>np.matrix\<close>: raises when the inner dimensions differ.\<close>

definition matmul :: "('a, 'c) numpy \<Rightarrow> 'a matrix \<Rightarrow> 'a matrix \<Rightarrow> error + 'a matrix" where
  "matmul np X Y = (if ncols X \<noteq> nrows Y then Inl ValueError else Inr (mm np X Y))"

definition matmul_c :: "('a, 'c) numpy \<Rightarrow> 'a matrix \<Rightarrow> 'c matrix \<Rightarrow> error + 'c matrix" where
  "matmul_c np X v = (if ncols X \<noteq> nrows v then Inl ValueError else Inr (mm_c np X v))"

text \<open>\<open>X ** n\<close> on \<open>np.matrix\<close>: \<open>matrix_power\<close>, which refuses a matrix that is not square.\<close>

definition matrix_power :: "('a, 'c) numpy \<Rightarrow> 'a matrix \<Rightarrow> nat \<Rightarrow> error + 'a matrix" where
  "matrix_power np X n = (if nrows X \<noteq> ncols X then Inl LinAlgError else Inr (mpow np X n))"

text \<open>\<open>C.dot(x)\<close> for a matrix \<open>C\<close> and a one-dimensional \<open>x\<close>: a matrix of one row.\<close>

definition dot_vec :: "('a, 'c) numpy \<Rightarrow> 'a matrix \<Rightarrow> 'c list \<Rightarrow> error + 'c matrix" where
  "dot_vec np C x =
     (if ncols C \<noteq> length x then Inl ValueError
      else Inr (Matrix (nrows C) [map (np_dot_c np C x) [0..<nrows C]]))"

section \<open>State controllability\<close>

text \<open>
  The arguments \<open>A\<close>, \<open>B\<close> and \<open>C\<close> are matrices already, so that \<open>np.asmatrix\<close> leaves
  them as they are.
\<close>

definition input_pole_vector ::
  "('a, 'c) numpy \<Rightarrow> 'a matrix \<Rightarrow> 'c matrix \<Rightarrow> nat \<Rightarrow> error + 'c matrix" where
  "input_pole_vector np B vl i =
     (let vli = asmatrix_1d (column vl i) in matmul_c np (H np B) (transpose_m vli))"

definition state_controllability ::
  "('a, 'c::zero) numpy \<Rightarrow> 'a matrix \<Rightarrow> 'a matrix
     \<Rightarrow> error + (bool \<times> 'c matrix list \<times> 'a matrix)" where
  "state_controllability np A B =
     (case np_eig np A True False of
        Inl err \<Rightarrow> Inl err
      | Inr (ev, vl) \<Rightarrow>
          (case traverse (input_pole_vector np B vl) [0..<ncols vl] of
             Inl err \<Rightarrow> Inl err
           | Inr u_p \<Rightarrow>
               let state_control = \<not> list_ex (\<lambda>x. np_norm np x = 0) u_p in
               (case traverse (\<lambda>n. case matrix_power np A n of
                                       Inl err \<Rightarrow> Inl err
                                     | Inr An \<Rightarrow> matmul np An B) [0..<ncols A] of
                  Inl err \<Rightarrow> Inl err
                | Inr c_plus \<Rightarrow>
                    (case hstack c_plus of
                       Inl err \<Rightarrow> Inl err
                     | Inr control_matrix \<Rightarrow> Inr (state_control, u_p, control_matrix)))))"

section \<open>State observability\<close>

definition output_pole_vector ::
  "('a, 'c) numpy \<Rightarrow> 'a matrix \<Rightarrow> 'c list \<Rightarrow> error + 'c matrix" where
  "output_pole_vector np C x =
     (case dot_vec np C x of
        Inl err \<Rightarrow> Inl err
      | Inr y \<Rightarrow> Inr (map_matrix (np_around np 3) y))"

definition state_observability ::
  "('a, 'c::zero) numpy \<Rightarrow> 'a matrix \<Rightarrow> 'a matrix
     \<Rightarrow> error + (bool \<times> 'c matrix list \<times> 'a matrix)" where
  "state_observability np A C =
     (case np_eig np A False True of
        Inl err \<Rightarrow> Inl err
      | Inr (ev, vr) \<Rightarrow>
          (case traverse (output_pole_vector np C) (rows (transpose_m vr)) of
             Inl err \<Rightarrow> Inl err
           | Inr out_pole_vec \<Rightarrow>
               let state_obsr = \<not> list_ex (\<lambda>x. np_sum np x = 0) out_pole_vec in
               (case traverse (\<lambda>n. case matrix_power np A n of
                                       Inl err \<Rightarrow> Inl err
                                     | Inr An \<Rightarrow> matmul np C An) [0..<ncols A] of
                  Inl err \<Rightarrow> Inl err
                | Inr o_plus \<Rightarrow>
                    (case vstack o_plus of
                       Inl err \<Rightarrow> Inl err
                     | Inr observe_matrix \<Rightarrow> Inr (state_obsr, out_pole_vec, observe_matrix)))))"

section \<open>Minimal realisation\<close>

definition is_min_realisation ::
  "('a, 'c::zero) numpy \<Rightarrow> 'a matrix \<Rightarrow> 'a matrix \<Rightarrow> 'a matrix \<Rightarrow> error + bool" where
  "is_min_realisation np A B C =
     (case state_observability np A C of
        Inl err \<Rightarrow> Inl err
      | Inr (state_obsr, out_pole_vec, observe_matrix) \<Rightarrow>
          (case state_controllability np A B of
             Inl err \<Rightarrow> Inl err
           | Inr (state_control, in_pole_vec, control_matrix) \<Rightarrow>
               Inr (state_control \<and> state_obsr)))"

section \<open>Pole and zero directions\<close>

text \<open>
  The transfer function \<open>G\<close> is a callable of the caller and \<open>SVD\<close> is the helper of the
  module \<open>utils\<close>, which returns the factors \<open>U\<close>, \<open>\<Sigma>\<close> and \<open>V\<close>; both are parameters and
  both may fail. An entry of the returned list is one of three shapes, as the display
  type selects.
\<close>

datatype ('s, 'v) direction =
  InputDirection 'v | OutputDirection 'v | AllData 's 'v 'v

text \<open>\<open>V[:,dt]\<close>: a negative index counts from the last column.\<close>

definition py_column :: "'a matrix \<Rightarrow> int \<Rightarrow> error + 'a list" where
  "py_column M i =
     (let n = int (ncols M); j = (if i < 0 then n + i else i)
      in if 0 \<le> j \<and> j < n then Inr (column M (nat j)) else Inl IndexError)"

text \<open>What the loop appends for one location, as the display type selects.\<close>

definition pz_entry :: "string \<Rightarrow> 's \<Rightarrow> 'v \<Rightarrow> 'v \<Rightarrow> ('s, 'v) direction" where
  "pz_entry display_type d u y =
     (if display_type = ''u'' then InputDirection u
      else if display_type = ''y'' then OutputDirection y
      else AllData d u y)"

definition pz_step ::
  "('s::{plus,zero} \<Rightarrow> error + 'g) \<Rightarrow> ('g \<Rightarrow> error + ('a matrix \<times> 'sv \<times> 'a matrix))
     \<Rightarrow> int \<Rightarrow> string \<Rightarrow> 's \<Rightarrow> 's \<Rightarrow> error + ('s, 'a list) direction" where
  "pz_step G SVD dt display_type e d =
     (case G (d + e) of
        Inl err \<Rightarrow> Inl err
      | Inr g \<Rightarrow>
          (case SVD g of
             Inl err \<Rightarrow> Inl err
           | Inr (U, S, V) \<Rightarrow>
               (case py_column V dt of
                  Inl err \<Rightarrow> Inl err
                | Inr u \<Rightarrow>
                    (case py_column U dt of
                       Inl err \<Rightarrow> Inl err
                     | Inr y \<Rightarrow> Inr (pz_entry display_type d u y)))))"

definition pole_zero_directions ::
  "('s::{plus,zero} \<Rightarrow> error + 'g) \<Rightarrow> ('g \<Rightarrow> error + ('a matrix \<times> 'sv \<times> 'a matrix))
     \<Rightarrow> 's list \<Rightarrow> string \<Rightarrow> string \<Rightarrow> 's \<Rightarrow> error + ('s, 'a list) direction list" where
  "pole_zero_directions G SVD vec dir_type display_type e =
     (let (dt, e) = (if dir_type = ''p'' then (0, e) else (- 1, 0))
      in traverse (pz_step G SVD dt display_type e) vec)"

section \<open>Transmission zeros\<close>

text \<open>
  The symbolic library. An entry of the matrix \<open>f = z Ig - M\<close> is the expression
  \<open>c z - m\<close> for an entry \<open>c\<close> of \<open>Ig\<close> and an entry \<open>m\<close> of \<open>M\<close>; no arithmetic is done
  to build it. The entries of \<open>Ig\<close> are the doubles of \<open>np.eye\<close> and \<open>np.zeros\<close>, of
  type \<open>'f\<close>; those of \<open>M\<close> are the caller's, of type \<open>'a\<close>. \<open>sp_det\<close> is the
  determinant that sympy computes of a square matrix of such entries, an expression in
  \<open>z\<close>, and \<open>sp_solve\<close> is \<open>sympy.solve\<close> for \<open>z\<close>.
\<close>

datatype ('f, 'a) entry = Entry (z_coefficient: 'f) (subtrahend: 'a)

record ('f, 'a, 'e, 'r) sympy =
  sp_det :: "('f, 'a) entry matrix \<Rightarrow> 'e"
  sp_solve :: "'e \<Rightarrow> error + 'r list"

text \<open>\<open>z * Ig - M\<close>: refused when the shapes differ.\<close>

definition pencil_sub :: "'f matrix \<Rightarrow> 'a matrix \<Rightarrow> error + ('f, 'a) entry matrix" where
  "pencil_sub Ig M =
     (if shape Ig \<noteq> shape M then Inl ShapeError
      else Inr (Matrix (ncols Ig) (map2 (map2 Entry) (rows Ig) (rows M))))"

text \<open>\<open>f.det()\<close>: refused for a matrix that is not square.\<close>

definition det :: "('f, 'a, 'e, 'r) sympy \<Rightarrow> ('f, 'a) entry matrix \<Rightarrow> error + 'e" where
  "det sp f = (if nrows f \<noteq> ncols f then Inl NonSquareMatrixError else Inr (sp_det sp f))"

text \<open>The block matrix \<open>[[P, Q], [R, S]]\<close>, built as the code builds it.\<close>

definition blocks :: "'a matrix \<Rightarrow> 'a matrix \<Rightarrow> 'a matrix \<Rightarrow> 'a matrix \<Rightarrow> error + 'a matrix" where
  "blocks P Q R S =
     (case hstack [P, Q] of
        Inl err \<Rightarrow> Inl err
      | Inr top_blocks \<Rightarrow>
          (case hstack [R, S] of
             Inl err \<Rightarrow> Inl err
           | Inr bot_blocks \<Rightarrow> vstack [top_blocks, bot_blocks]))"

definition zero ::
  "('f::{zero,one}, 'a, 'e, 'r) sympy \<Rightarrow> 'a matrix \<Rightarrow> 'a matrix \<Rightarrow> 'a matrix \<Rightarrow> 'a matrix
     \<Rightarrow> error + 'r list" where
  "zero sp A B C D =
     (case blocks A B C D of
        Inl err \<Rightarrow> Inl err
      | Inr M \<Rightarrow>
          (let p1 = eye (nrows A);
               p2 = zeros (nrows B) (ncols B);
               p3 = zeros (nrows C) (ncols C);
               p4 = zeros (nrows D) (ncols D)
           in (case blocks p1 p2 p3 p4 of
                 Inl err \<Rightarrow> Inl err
               | Inr Ig \<Rightarrow>
                   (case pencil_sub Ig M of
                      Inl err \<Rightarrow> Inl err
                    | Inr f \<Rightarrow>
                        (case det sp f of
                           Inl err \<Rightarrow> Inl err
                         | Inr zf \<Rightarrow> sp_solve sp zf)))))"

section \<open>Auxiliary notions\<close>

text \<open>\<open>np.asmatrix(vl[:,i]).T\<close>: column \<open>i\<close> of a matrix as a matrix of one column.\<close>

definition col_matrix :: "'a matrix \<Rightarrow> nat \<Rightarrow> 'a matrix" where
  "col_matrix M i = transpose_m (asmatrix_1d (column M i))"

text \<open>
  The lists \<open>c_plus\<close> and \<open>o_plus\<close> of the code when no product fails, and the value
  of \<open>C.dot(x)\<close> when the shapes fit.
\<close>

definition c_plus :: "('a, 'c) numpy \<Rightarrow> 'a matrix \<Rightarrow> 'a matrix \<Rightarrow> 'a matrix list" where
  "c_plus np A B = map (\<lambda>n. mm np (mpow np A n) B) [0..<ncols A]"

definition o_plus :: "('a, 'c) numpy \<Rightarrow> 'a matrix \<Rightarrow> 'a matrix \<Rightarrow> 'a matrix list" where
  "o_plus np A C = map (\<lambda>n. mm np C (mpow np A n)) [0..<ncols A]"

definition C_dot :: "('a, 'c) numpy \<Rightarrow> 'a matrix \<Rightarrow> 'c list \<Rightarrow> 'c matrix" where
  "C_dot np C x = Matrix (nrows C) [map (np_dot_c np C x) [0..<nrows C]]"

text \<open>The three components that the two analyses return when nothing fails.\<close>

definition pole_vectors :: "('a, 'c) numpy \<Rightarrow> 'a matrix \<Rightarrow> 'c matrix \<Rightarrow> 'c matrix list" where
  "pole_vectors np B vl = map (\<lambda>i. mm_c np (H np B) (col_matrix vl i)) [0..<ncols vl]"

definition control_matrix_value :: "('a, 'c) numpy \<Rightarrow> 'a matrix \<Rightarrow> 'a matrix \<Rightarrow> 'a matrix" where
  "control_matrix_value np A B =
     Matrix (ncols A * ncols B)
       (map (\<lambda>i. concat (map (\<lambda>N. rows N ! i) (c_plus np A B))) [0..<ncols A])"

definition out_pole_vectors :: "('a, 'c) numpy \<Rightarrow> 'a matrix \<Rightarrow> 'c matrix \<Rightarrow> 'c matrix list" where
  "out_pole_vectors np C vr =
     map (\<lambda>i. map_matrix (np_around np 3) (C_dot np C (column vr i))) [0..<ncols vr]"

definition observe_matrix_value :: "('a, 'c) numpy \<Rightarrow> 'a matrix \<Rightarrow> 'a matrix \<Rightarrow> 'a matrix" where
  "observe_matrix_value np A C = Matrix (ncols A) (concat (map rows (o_plus np A C)))"

text \<open>
  The value of \<open>blocks\<close> when the concatenations succeed, its entries, and the
  symbolic matrix \<open>f = z Ig - M\<close> that \<open>zero\<close> builds from the two block matrices.
\<close>

definition block_matrix :: "'a matrix \<Rightarrow> 'a matrix \<Rightarrow> 'a matrix \<Rightarrow> 'a matrix \<Rightarrow> 'a matrix" where
  "block_matrix P Q R S =
     Matrix (ncols P + ncols Q) (hjoin (rows P) (rows Q) @ hjoin (rows R) (rows S))"

definition block_entry :: "'a matrix \<Rightarrow> 'a matrix \<Rightarrow> 'a matrix \<Rightarrow> 'a matrix \<Rightarrow> nat \<Rightarrow> nat \<Rightarrow> 'a" where
  "block_entry P Q R S i j =
     (if i < nrows P
      then (if j < ncols P then rows P ! i ! j else rows Q ! i ! (j - ncols P))
      else (if j < ncols R then rows R ! (i - nrows P) ! j
            else rows S ! (i - nrows P) ! (j - ncols R)))"

definition Ig_blocks ::
  "'a matrix \<Rightarrow> 'a matrix \<Rightarrow> 'a matrix \<Rightarrow> 'a matrix \<Rightarrow> 'f::{zero,one} matrix" where
  "Ig_blocks A B C D =
     block_matrix (eye (nrows A)) (zeros (nrows B) (ncols B))
       (zeros (nrows C) (ncols C)) (zeros (nrows D) (ncols D))"

definition pencil ::
  "'a matrix \<Rightarrow> 'a matrix \<Rightarrow> 'a matrix \<Rightarrow> 'a matrix \<Rightarrow> ('f::{zero,one}, 'a) entry matrix" where
  "pencil A B C D =
     Matrix (nrows A + ncols B)
       (map2 (map2 Entry) (rows (Ig_blocks A B C D)) (rows (block_matrix A B C D)))"

section \<open>Libraries for the worked examples\<close>

text \<open>
  Exact arithmetic in a commutative ring. At the type \<open>64 word\<close> this is the arithmetic
  of numpy on arrays of 64-bit integers, sums and products modulo \<open>2\<^sup>6\<^sup>4\<close>. At the type
  \<open>complex\<close> it is what the library computes on doubles as long as no operation rounds,
  overflows or underflows, which is so for the small integers and the fractions with a
  power of two as denominator of the examples below; elsewhere the library rounds and
  these definitions say nothing about it.
\<close>

definition dot_list :: "'a::comm_ring_1 list \<Rightarrow> 'a list \<Rightarrow> 'a" where
  "dot_list r c = sum_list (map2 (*) r c)"

definition ring_mm :: "'a::comm_ring_1 matrix \<Rightarrow> 'a matrix \<Rightarrow> 'a matrix" where
  "ring_mm X Y = Matrix (ncols Y)
     (map (\<lambda>r. map (\<lambda>j. dot_list r (column Y j)) [0..<ncols Y]) (rows X))"

primrec ring_mpow :: "'a::comm_ring_1 matrix \<Rightarrow> nat \<Rightarrow> 'a matrix" where
  "ring_mpow X 0 = eye (nrows X)"
| "ring_mpow X (Suc k) = ring_mm (ring_mpow X k) X"

definition ring_mul :: "'a::comm_ring_1 matrix \<Rightarrow> 'a matrix \<Rightarrow> nat \<Rightarrow> nat \<Rightarrow> 'a" where
  "ring_mul X Y i j = dot_list (rows X ! i) (column Y j)"

definition ring_pow :: "'a::comm_ring_1 matrix \<Rightarrow> nat \<Rightarrow> nat \<Rightarrow> nat \<Rightarrow> 'a" where
  "ring_pow X n i j = rows (ring_mpow X n) ! i ! j"

text \<open>
  The norm of Frobenius, the sum of all entries, and rounding to a number of decimals,
  halves to the even neighbour, the real and the imaginary part each on its own.
\<close>

definition norm_exact :: "complex matrix \<Rightarrow> complex" where
  "norm_exact M =
     (let x = concat (rows M);
          sqnorm = sum_list (map (\<lambda>c. (Re c)\<^sup>2) x) + sum_list (map (\<lambda>c. (Im c)\<^sup>2) x)
      in of_real (sqrt sqnorm))"

definition sum_exact :: "complex matrix \<Rightarrow> complex" where
  "sum_exact M = sum_list (concat (rows M))"

definition rint :: "real \<Rightarrow> int" where
  "rint x =
     (let f = \<lfloor>x\<rfloor>; d = x - of_int f
      in if d < 1 / 2 then f else if 1 / 2 < d then f + 1 else if even f then f else f + 1)"

definition around_real :: "nat \<Rightarrow> real \<Rightarrow> real" where
  "around_real decimals x = of_int (rint (x * 10 ^ decimals)) / 10 ^ decimals"

definition around_exact :: "nat \<Rightarrow> complex \<Rightarrow> complex" where
  "around_exact decimals c =
     Complex (around_real decimals (Re c)) (around_real decimals (Im c))"

text \<open>
  The library on arrays of doubles, and on arrays of 64-bit integers, which it converts
  to doubles where it meets the eigenvectors. The eigen-decomposition is given
  separately for each example.
\<close>

definition numpy_exact ::
  "(complex matrix \<Rightarrow> bool \<Rightarrow> bool \<Rightarrow> error + (complex list \<times> complex matrix))
     \<Rightarrow> (complex, complex) numpy" where
  "numpy_exact eig =
     \<lparr>np_eig = eig, np_conj = cnj, np_mul = ring_mul, np_pow = ring_pow,
      np_mul_c = ring_mul, np_dot_c = (\<lambda>C x i. dot_list (rows C ! i) x),
      np_norm = norm_exact, np_around = around_exact, np_sum = sum_exact\<rparr>"

definition of_int64 :: "64 word \<Rightarrow> complex" where
  "of_int64 w = of_int (sint w)"

definition numpy_int64 ::
  "(64 word matrix \<Rightarrow> bool \<Rightarrow> bool \<Rightarrow> error + (complex list \<times> complex matrix))
     \<Rightarrow> (64 word, complex) numpy" where
  "numpy_int64 eig =
     \<lparr>np_eig = eig, np_conj = (\<lambda>w. w), np_mul = ring_mul, np_pow = ring_pow,
      np_mul_c = (\<lambda>X. ring_mul (map_matrix of_int64 X)),
      np_dot_c = (\<lambda>C x i. dot_list (map of_int64 (rows C ! i)) x),
      np_norm = norm_exact, np_around = around_exact, np_sum = sum_exact\<rparr>"

text \<open>
  Eigen-decompositions. A matrix that is not square is refused. For a diagonal matrix
  the eigenvalues are the diagonal entries and the unit vectors are left and right
  eigenvectors. Where a property does not depend on what the decomposition returns,
  \<open>eig_const\<close> returns given eigenvalues and eigenvectors, whatever they are.
\<close>

definition eig_diagonal ::
  "('a \<Rightarrow> complex) \<Rightarrow> 'a matrix \<Rightarrow> bool \<Rightarrow> bool \<Rightarrow> error + (complex list \<times> complex matrix)" where
  "eig_diagonal value_of A left right =
     (if nrows A \<noteq> ncols A then Inl ValueError
      else Inr (map (\<lambda>i. value_of (rows A ! i ! i)) [0..<nrows A], eye (nrows A)))"

definition eig_const ::
  "complex list \<Rightarrow> complex matrix \<Rightarrow> 'a matrix \<Rightarrow> bool \<Rightarrow> bool
     \<Rightarrow> error + (complex list \<times> complex matrix)" where
  "eig_const ev v A left right = Inr (ev, v)"

text \<open>
  A symbolic library in exact arithmetic. A polynomial in \<open>z\<close> is the list of its
  coefficients, the constant one first; the determinant is expanded along the first
  row; the solver knows the roots of a polynomial of degree at most one (none for a
  constant, which is also the answer of \<open>sympy.solve\<close> for the constant \<open>0\<close>) and gives
  up on any other.
\<close>

type_synonym 'a polyz = "'a list"

fun padd :: "'a::comm_ring_1 polyz \<Rightarrow> 'a polyz \<Rightarrow> 'a polyz" where
  "padd [] q = q"
| "padd p [] = p"
| "padd (a # p) (b # q) = (a + b) # padd p q"

fun pmul :: "'a::comm_ring_1 polyz \<Rightarrow> 'a polyz \<Rightarrow> 'a polyz" where
  "pmul [] q = []"
| "pmul (a # p) q = padd (map ((*) a) q) (0 # pmul p q)"

fun peval :: "'a::comm_ring_1 polyz \<Rightarrow> 'a \<Rightarrow> 'a" where
  "peval [] z = 0"
| "peval (a # p) z = a + z * peval p z"

definition minor_rows :: "'a list list \<Rightarrow> nat \<Rightarrow> 'a list list" where
  "minor_rows rs j = map (\<lambda>r. take j r @ drop (Suc j) r) rs"

primrec det_n :: "nat \<Rightarrow> 'a::comm_ring_1 polyz list list \<Rightarrow> 'a polyz" where
  "det_n 0 m = [1]"
| "det_n (Suc n) m =
     foldr padd
       (map (\<lambda>j. pmul (pmul (if even j then [1] else [- 1]) (hd m ! j))
                     (det_n n (minor_rows (tl m) j))) [0..<Suc n]) []"

definition entry_poly :: "('a::comm_ring_1, 'a) entry \<Rightarrow> 'a polyz" where
  "entry_poly x = [- subtrahend x, z_coefficient x]"

definition det_exact :: "('a::comm_ring_1, 'a) entry matrix \<Rightarrow> 'a polyz" where
  "det_exact f = det_n (nrows f) (rows (map_matrix entry_poly f))"

definition solve_linear :: "complex polyz \<Rightarrow> error + complex list" where
  "solve_linear p =
     (if list_ex (\<lambda>c. c \<noteq> 0) (drop 2 p) then Inl NotImplementedError
      else if 2 \<le> length p \<and> p ! 1 \<noteq> 0 then Inr [- (p ! 0) / (p ! 1)]
      else Inr [])"

definition sympy_exact :: "(complex, complex, complex polyz, complex) sympy" where
  "sympy_exact = \<lparr>sp_det = det_exact, sp_solve = solve_linear\<rparr>"

text \<open>
  The transfer function of the script \<open>mvnyquist\<close>. The scalar factor is computed first;
  on Python numbers the division raises \<open>ZeroDivisionError\<close> at the poles \<open>-1\<close>, \<open>-2\<close>
  and \<open>1\<close>.
\<close>

definition mvnyquist_G :: "complex \<Rightarrow> error + complex matrix" where
  "mvnyquist_G s =
     (let den = (s + 1) * (s + 2) * (s - 1)
      in if den = 0 then Inl ZeroDivisionError
         else Inr (map_matrix (\<lambda>x. 1 / den * x)
                (Matrix 2 [[(s - 1) * (s + 2), (s - 1)\<^sup>2],
                           [- (s + 1) * (s + 2), (s - 1) * (s + 1)]])))"

text \<open>
  Providers for the worked examples of the direction extractor: a transfer function
  whose values are diagonal with a non-negative, descending diagonal near \<open>0\<close>, and the
  singular value decomposition of such a matrix, whose factors are identity matrices.
\<close>

definition G_diagonal :: "complex \<Rightarrow> error + complex matrix" where
  "G_diagonal s = Inr (Matrix 2 [[2, 0], [0, s]])"

text \<open>
  A transfer function with a pole at \<open>0\<close>, \<open>G(s) = [[1 / s, 0], [0, 0]]\<close>: on Python
  numbers the division raises \<open>ZeroDivisionError\<close> at the pole.
\<close>

definition G_pole :: "complex \<Rightarrow> error + complex matrix" where
  "G_pole s = (if s = 0 then Inl ZeroDivisionError else Inr (Matrix 2 [[1 / s, 0], [0, 0]]))"

definition svd_diagonal :: "complex matrix \<Rightarrow> error + (complex matrix \<times> complex list \<times> complex matrix)" where
  "svd_diagonal g =
     Inr (eye (nrows g), map (\<lambda>i. rows g ! i ! i) [0..<min (nrows g) (ncols g)], eye (ncols g))"

section \<open>Sequencing and concatenation\<close>

lemma traverse_eq_Inr_iff:
  "traverse f xs = Inr ys \<longleftrightarrow> list_all2 (\<lambda>x y. f x = Inr y) xs ys"
proof (induction xs arbitrary: ys)
  case Nil
  show ?case by auto
next
  case (Cons x xs)
  show ?case
  proof (cases "f x")
    case (Inl e)
    then show ?thesis by (auto simp: list_all2_Cons1)
  next
    case fx: (Inr y)
    show ?thesis
    proof (cases "traverse f xs")
      case (Inl e)
      then have "\<not> list_all2 (\<lambda>x y. f x = Inr y) xs zs" for zs
        using Cons.IH [of zs] by simp
      with Inl fx show ?thesis by (auto simp: list_all2_Cons1)
    next
      case (Inr zs)
      then have "list_all2 (\<lambda>x y. f x = Inr y) xs ws \<longleftrightarrow> ws = zs" for ws
        using Cons.IH [of ws] by auto
      with Inr fx show ?thesis by (auto simp: list_all2_Cons1)
    qed
  qed
qed

lemma traverse_map:
  "(\<And>x. x \<in> set xs \<Longrightarrow> f x = Inr (g x)) \<Longrightarrow> traverse f xs = Inr (map g xs)"
  by (induction xs) auto

lemma traverse_fails:
  "x \<in> set xs \<Longrightarrow> f x = Inl e \<Longrightarrow> \<exists>e'. traverse f xs = Inl e'"
  by (induction xs) (auto split: sum.splits)

lemma traverse_cong:
  "(\<And>x. x \<in> set xs \<Longrightarrow> f x = g x) \<Longrightarrow> traverse f xs = traverse g xs"
  by (induction xs) (auto split: sum.splits)

lemma traverse_length:
  "traverse f xs = Inr ys \<Longrightarrow> length ys = length xs"
  by (simp add: traverse_eq_Inr_iff list_all2_lengthD)

lemma hjoin_zip: "hjoin rs ss = map (\<lambda>(r, s). r @ s) (zip rs ss)"
  by (induction rs ss rule: hjoin.induct) auto

lemma length_hjoin: "length (hjoin rs ss) = min (length rs) (length ss)"
  by (simp add: hjoin_zip)

lemma nth_hjoin:
  "i < length rs \<Longrightarrow> i < length ss \<Longrightarrow> hjoin rs ss ! i = rs ! i @ ss ! i"
  by (simp add: hjoin_zip)

lemma foldl_hjoin:
  "\<forall>N\<in>set Ns. nrows N = nrows acc \<Longrightarrow>
   foldl (\<lambda>acc N. Matrix (ncols acc + ncols N) (hjoin (rows acc) (rows N))) acc Ns =
     Matrix (ncols acc + sum_list (map ncols Ns))
       (map (\<lambda>i. rows acc ! i @ concat (map (\<lambda>N. rows N ! i) Ns)) [0..<nrows acc])"
proof (induction Ns arbitrary: acc)
  case Nil
  show ?case by (cases acc) (simp add: nrows_def map_nth)
next
  case (Cons N Ns)
  let ?acc = "Matrix (ncols acc + ncols N) (hjoin (rows acc) (rows N))"
  have n: "nrows ?acc = nrows acc"
    using Cons.prems by (simp add: nrows_def length_hjoin)
  have "\<forall>N\<in>set Ns. nrows N = nrows ?acc"
    using Cons.prems n by simp
  from Cons.IH [OF this] show ?case
    using Cons.prems by (simp add: n add.assoc) (simp add: nrows_def nth_hjoin)
qed

lemma hstack_rows:
  assumes "Ms \<noteq> []" and "\<forall>N\<in>set Ms. nrows N = r"
  shows "hstack Ms =
    Inr (Matrix (sum_list (map ncols Ms)) (map (\<lambda>i. concat (map (\<lambda>N. rows N ! i) Ms)) [0..<r]))"
proof (cases Ms)
  case Nil
  with assms show ?thesis by simp
next
  case (Cons M Ns)
  have "\<forall>N\<in>set Ns. nrows N = nrows M" using assms Cons by simp
  with foldl_hjoin [OF this] assms Cons show ?thesis
    by (simp add: hstack_def list_all_iff)
qed

lemma traverse_nth:
  "traverse f xs = Inr ys \<Longrightarrow> i < length xs \<Longrightarrow> f (xs ! i) = Inr (ys ! i)"
  by (simp add: traverse_eq_Inr_iff list_all2_conv_all_nth)

lemma traverse_single: "traverse f [x] = Inr [y] \<longleftrightarrow> f x = Inr y"
  by (auto split: sum.splits)

lemma traverse_all_ok:
  "(\<And>x. x \<in> set xs \<Longrightarrow> \<exists>y. f x = Inr y) \<Longrightarrow> \<exists>ys. traverse f xs = Inr ys"
  by (induction xs) (fastforce split: sum.splits)+

lemma vstack_rows:
  "Ms \<noteq> [] \<Longrightarrow> \<forall>N\<in>set Ms. ncols N = c \<Longrightarrow>
   vstack Ms = Inr (Matrix c (concat (map rows Ms)))"
  by (cases Ms) (auto simp: vstack_def list_all_iff)

lemma hstack_pair:
  "hstack [P, Q] =
     (if nrows Q = nrows P then Inr (Matrix (ncols P + ncols Q) (hjoin (rows P) (rows Q)))
      else Inl ValueError)"
  by (simp add: hstack_def)

lemma vstack_pair:
  "vstack [P, Q] =
     (if ncols Q = ncols P then Inr (Matrix (ncols P) (rows P @ rows Q)) else Inl ValueError)"
  by (simp add: vstack_def)

lemma blocks_eq:
  "blocks P Q R S =
     (if nrows Q \<noteq> nrows P \<or> nrows S \<noteq> nrows R \<or> ncols R + ncols S \<noteq> ncols P + ncols Q
      then Inl ValueError else Inr (block_matrix P Q R S))"
  by (simp add: blocks_def hstack_pair vstack_pair block_matrix_def)

lemma upt_2: "[0..<2] = [0, Suc 0]"
  by (simp add: upt_rec numeral_2_eq_2)

lemma list_of_length_2: "length xs = 2 \<Longrightarrow> xs = [xs ! 0, xs ! Suc 0]"
  by (cases xs; cases "tl xs") auto

section \<open>Shapes\<close>

lemma nrows_tabulate [simp]: "nrows (tabulate r c f) = r"
  by (simp add: tabulate_def nrows_def)

lemma ncols_tabulate [simp]: "ncols (tabulate r c f) = c"
  by (simp add: tabulate_def)

lemma wf_tabulate [simp]: "wf_matrix (tabulate r c f)"
  by (simp add: tabulate_def wf_matrix_def list_all_iff)

lemma tabulate_nth: "i < r \<Longrightarrow> j < c \<Longrightarrow> rows (tabulate r c f) ! i ! j = f i j"
  by (simp add: tabulate_def)

lemma tabulate_row_length: "i < r \<Longrightarrow> length (rows (tabulate r c f) ! i) = c"
  by (simp add: tabulate_def)

lemma nrows_mm [simp]: "nrows (mm np X Y) = nrows X"
  by (simp add: mm_def)

lemma ncols_mm [simp]: "ncols (mm np X Y) = ncols Y"
  by (simp add: mm_def)

lemma wf_mm [simp]: "wf_matrix (mm np X Y)"
  by (simp add: mm_def)

lemma nrows_mpow [simp]: "nrows (mpow np X n) = nrows X"
  by (simp add: mpow_def)

lemma ncols_mpow [simp]: "ncols (mpow np X n) = ncols X"
  by (simp add: mpow_def)

lemma nrows_eye [simp]: "nrows (eye n) = n"
  by (simp add: eye_def)

lemma ncols_eye [simp]: "ncols (eye n) = n"
  by (simp add: eye_def)

lemma wf_eye [simp]: "wf_matrix (eye n)"
  by (simp add: eye_def)

lemma eye_nth: "i < n \<Longrightarrow> j < n \<Longrightarrow> rows (eye n) ! i ! j = (if i = j then 1 else 0)"
  by (simp add: eye_def tabulate_nth)

lemma nrows_zeros [simp]: "nrows (zeros r c) = r"
  by (simp add: zeros_def nrows_def)

lemma ncols_zeros [simp]: "ncols (zeros r c) = c"
  by (simp add: zeros_def)

lemma wf_zeros [simp]: "wf_matrix (zeros r c)"
  by (simp add: zeros_def wf_matrix_def list_all_iff)

lemma zeros_nth: "i < r \<Longrightarrow> j < c \<Longrightarrow> rows (zeros r c) ! i ! j = 0"
  by (simp add: zeros_def)

lemma nrows_map_matrix [simp]: "nrows (map_matrix f M) = nrows M"
  by (simp add: map_matrix_def nrows_def)

lemma ncols_map_matrix [simp]: "ncols (map_matrix f M) = ncols M"
  by (simp add: map_matrix_def)

lemma length_column [simp]: "length (column M j) = nrows M"
  by (simp add: column_def nrows_def)

lemma rows_transpose_m: "rows (transpose_m M) = map (column M) [0..<ncols M]"
  by (simp add: transpose_m_def)

lemma wf_row_length: "wf_matrix M \<Longrightarrow> i < nrows M \<Longrightarrow> length (rows M ! i) = ncols M"
  by (simp add: wf_matrix_def nrows_def list_all_length)

lemma nrows_H [simp]: "nrows (H np B) = ncols B"
  by (simp add: H_def transpose_m_def nrows_def map_matrix_def)

lemma ncols_H [simp]: "ncols (H np B) = nrows B"
  by (simp add: H_def transpose_m_def)

lemma H_nth:
  "i < ncols B \<Longrightarrow> j < nrows B \<Longrightarrow> rows (H np B) ! i ! j = np_conj np (rows B ! j ! i)"
  by (simp add: H_def map_matrix_def transpose_m_def column_def nrows_def)

lemma col_matrix_eq: "col_matrix M i = Matrix 1 (map (\<lambda>r. [r ! i]) (rows M))"
proof -
  have "map (\<lambda>j. [map (\<lambda>r. r ! i) (rows M) ! j]) [0..<length (rows M)]
        = map (\<lambda>r. [r ! i]) (rows M)"
    by (rule nth_equalityI) simp_all
  then show ?thesis
    by (simp add: col_matrix_def transpose_m_def asmatrix_1d_def column_def [abs_def] nrows_def)
qed

lemma nrows_col_matrix [simp]: "nrows (col_matrix M i) = nrows M"
  by (simp add: col_matrix_eq nrows_def)

lemma ncols_col_matrix [simp]: "ncols (col_matrix M i) = 1"
  by (simp add: col_matrix_eq)

section \<open>What the two analyses return\<close>

lemma traverse_all_fail:
  "xs \<noteq> [] \<Longrightarrow> (\<And>x. x \<in> set xs \<Longrightarrow> f x = Inl e) \<Longrightarrow> traverse f xs = Inl e"
  by (cases xs) auto

lemma input_pole_vector_eq:
  "input_pole_vector np B vl i =
     (if nrows B \<noteq> nrows vl then Inl ValueError else Inr (mm_c np (H np B) (col_matrix vl i)))"
  by (simp add: input_pole_vector_def matmul_c_def col_matrix_def [symmetric])

lemma pole_traverse:
  "traverse (input_pole_vector np B vl) [0..<ncols vl] =
     (if ncols vl \<noteq> 0 \<and> nrows vl \<noteq> nrows B then Inl ValueError
      else Inr (pole_vectors np B vl))"
proof (cases "ncols vl \<noteq> 0 \<and> nrows vl \<noteq> nrows B")
  case True
  then have "traverse (input_pole_vector np B vl) [0..<ncols vl] = Inl ValueError"
    by (intro traverse_all_fail) (auto simp: input_pole_vector_eq)
  with True show ?thesis by simp
next
  case False
  show ?thesis
  proof (cases "ncols vl = 0")
    case True
    then show ?thesis by (simp add: pole_vectors_def)
  next
    case nz: False
    with False have "nrows vl = nrows B" by simp
    then have "traverse (input_pole_vector np B vl) [0..<ncols vl] = Inr (pole_vectors np B vl)"
      unfolding pole_vectors_def by (intro traverse_map) (simp add: input_pole_vector_eq)
    with False show ?thesis by simp
  qed
qed

lemma power_times_eq:
  "(case matrix_power np A n of Inl err \<Rightarrow> Inl err | Inr An \<Rightarrow> matmul np An B) =
     (if nrows A \<noteq> ncols A then Inl LinAlgError
      else if ncols A \<noteq> nrows B then Inl ValueError
      else Inr (mm np (mpow np A n) B))"
  by (simp add: matrix_power_def matmul_def)

lemma times_power_eq:
  "(case matrix_power np A n of Inl err \<Rightarrow> Inl err | Inr An \<Rightarrow> matmul np C An) =
     (if nrows A \<noteq> ncols A then Inl LinAlgError
      else if ncols C \<noteq> ncols A then Inl ValueError
      else Inr (mm np C (mpow np A n)))"
  by (simp add: matrix_power_def matmul_def)

lemma c_plus_traverse:
  "traverse (\<lambda>n. case matrix_power np A n of Inl err \<Rightarrow> Inl err | Inr An \<Rightarrow> matmul np An B)
     [0..<ncols A] =
     (if ncols A = 0 then Inr []
      else if nrows A \<noteq> ncols A then Inl LinAlgError
      else if ncols A \<noteq> nrows B then Inl ValueError
      else Inr (c_plus np A B))"
proof -
  let ?f = "\<lambda>n. case matrix_power np A n of Inl err \<Rightarrow> Inl err | Inr An \<Rightarrow> matmul np An B"
  consider (empty) "ncols A = 0" | (nonsq) "ncols A \<noteq> 0" "nrows A \<noteq> ncols A"
    | (rows) "ncols A \<noteq> 0" "nrows A = ncols A" "ncols A \<noteq> nrows B"
    | (ok) "ncols A \<noteq> 0" "nrows A = ncols A" "ncols A = nrows B"
    by blast
  then show ?thesis
  proof cases
    case empty
    then show ?thesis by simp
  next
    case nonsq
    then have "traverse ?f [0..<ncols A] = Inl LinAlgError"
      by (intro traverse_all_fail) (auto simp: power_times_eq)
    with nonsq show ?thesis by simp
  next
    case rows
    then have "traverse ?f [0..<ncols A] = Inl ValueError"
      by (intro traverse_all_fail) (auto simp: power_times_eq)
    with rows show ?thesis by simp
  next
    case ok
    then have "traverse ?f [0..<ncols A] = Inr (c_plus np A B)"
      unfolding c_plus_def by (intro traverse_map) (simp add: power_times_eq)
    with ok show ?thesis by simp
  qed
qed

lemma o_plus_traverse:
  "traverse (\<lambda>n. case matrix_power np A n of Inl err \<Rightarrow> Inl err | Inr An \<Rightarrow> matmul np C An)
     [0..<ncols A] =
     (if ncols A = 0 then Inr []
      else if nrows A \<noteq> ncols A then Inl LinAlgError
      else if ncols C \<noteq> ncols A then Inl ValueError
      else Inr (o_plus np A C))"
proof -
  let ?f = "\<lambda>n. case matrix_power np A n of Inl err \<Rightarrow> Inl err | Inr An \<Rightarrow> matmul np C An"
  consider (empty) "ncols A = 0" | (nonsq) "ncols A \<noteq> 0" "nrows A \<noteq> ncols A"
    | (cols) "ncols A \<noteq> 0" "nrows A = ncols A" "ncols C \<noteq> ncols A"
    | (ok) "ncols A \<noteq> 0" "nrows A = ncols A" "ncols C = ncols A"
    by blast
  then show ?thesis
  proof cases
    case empty
    then show ?thesis by simp
  next
    case nonsq
    then have "traverse ?f [0..<ncols A] = Inl LinAlgError"
      by (intro traverse_all_fail) (auto simp: times_power_eq)
    with nonsq show ?thesis by simp
  next
    case cols
    then have "traverse ?f [0..<ncols A] = Inl ValueError"
      by (intro traverse_all_fail) (auto simp: times_power_eq)
    with cols show ?thesis by simp
  next
    case ok
    then have "traverse ?f [0..<ncols A] = Inr (o_plus np A C)"
      unfolding o_plus_def by (intro traverse_map) (simp add: times_power_eq)
    with ok show ?thesis by simp
  qed
qed

lemma hstack_c_plus:
  assumes "0 < ncols A" and "nrows A = ncols A"
  shows "hstack (c_plus np A B) = Inr (control_matrix_value np A B)"
proof -
  have ne: "c_plus np A B \<noteq> []" using assms by (simp add: c_plus_def)
  have nr: "\<forall>N\<in>set (c_plus np A B). nrows N = ncols A"
    using assms by (auto simp: c_plus_def)
  have "sum_list (map ncols (c_plus np A B)) = ncols A * ncols B"
    by (simp add: c_plus_def comp_def sum_list_triv)
  with hstack_rows [OF ne nr] show ?thesis
    by (simp add: control_matrix_value_def)
qed

lemma vstack_o_plus:
  assumes "0 < ncols A"
  shows "vstack (o_plus np A C) = Inr (observe_matrix_value np A C)"
proof -
  have ne: "o_plus np A C \<noteq> []" using assms by (simp add: o_plus_def)
  have nc: "\<forall>N\<in>set (o_plus np A C). ncols N = ncols A"
    by (auto simp: o_plus_def)
  from vstack_rows [OF ne nc] show ?thesis
    by (simp add: observe_matrix_value_def)
qed

lemma state_controllability_eq:
  "state_controllability np A B =
     (case np_eig np A True False of
        Inl err \<Rightarrow> Inl err
      | Inr (ev, vl) \<Rightarrow>
          if ncols vl \<noteq> 0 \<and> nrows vl \<noteq> nrows B then Inl ValueError
          else if ncols A = 0 then Inl ValueError
          else if nrows A \<noteq> ncols A then Inl LinAlgError
          else if ncols A \<noteq> nrows B then Inl ValueError
          else Inr (\<not> (\<exists>x\<in>set (pole_vectors np B vl). np_norm np x = 0),
                    pole_vectors np B vl, control_matrix_value np A B))"
proof (cases "np_eig np A True False")
  case (Inl err)
  then show ?thesis by (simp add: state_controllability_def)
next
  case (Inr p)
  obtain ev vl where p: "p = (ev, vl)" by (cases p)
  show ?thesis
  proof (cases "ncols A = 0")
    case True
    then show ?thesis
      by (simp add: state_controllability_def Inr p pole_traverse c_plus_traverse hstack_def)
  next
    case False
    then show ?thesis
      by (simp add: state_controllability_def Inr p pole_traverse c_plus_traverse
          hstack_c_plus list_ex_iff)
  qed
qed

lemma output_pole_vector_eq:
  "output_pole_vector np C x =
     (if ncols C \<noteq> length x then Inl ValueError
      else Inr (map_matrix (np_around np 3) (C_dot np C x)))"
  by (simp add: output_pole_vector_def dot_vec_def C_dot_def)

lemma out_pole_traverse:
  "traverse (output_pole_vector np C) (rows (transpose_m vr)) =
     (if ncols vr \<noteq> 0 \<and> nrows vr \<noteq> ncols C then Inl ValueError
      else Inr (out_pole_vectors np C vr))"
proof (cases "ncols vr \<noteq> 0 \<and> nrows vr \<noteq> ncols C")
  case True
  then have "traverse (output_pole_vector np C) (map (column vr) [0..<ncols vr]) = Inl ValueError"
    by (intro traverse_all_fail) (auto simp: output_pole_vector_eq)
  with True show ?thesis by (simp add: rows_transpose_m)
next
  case False
  show ?thesis
  proof (cases "ncols vr = 0")
    case True
    then show ?thesis by (simp add: out_pole_vectors_def rows_transpose_m)
  next
    case nz: False
    with False have eq: "nrows vr = ncols C" by simp
    have "traverse (output_pole_vector np C) (map (column vr) [0..<ncols vr])
          = Inr (map (\<lambda>x. map_matrix (np_around np 3) (C_dot np C x))
                   (map (column vr) [0..<ncols vr]))"
      by (rule traverse_map) (auto simp: output_pole_vector_eq eq)
    with False show ?thesis
      by (simp add: rows_transpose_m out_pole_vectors_def comp_def)
  qed
qed

lemma state_observability_eq:
  "state_observability np A C =
     (case np_eig np A False True of
        Inl err \<Rightarrow> Inl err
      | Inr (ev, vr) \<Rightarrow>
          if ncols vr \<noteq> 0 \<and> nrows vr \<noteq> ncols C then Inl ValueError
          else if ncols A = 0 then Inl ValueError
          else if nrows A \<noteq> ncols A then Inl LinAlgError
          else if ncols C \<noteq> ncols A then Inl ValueError
          else Inr (\<not> (\<exists>x\<in>set (out_pole_vectors np C vr). np_sum np x = 0),
                    out_pole_vectors np C vr, observe_matrix_value np A C))"
proof (cases "np_eig np A False True")
  case (Inl err)
  then show ?thesis by (simp add: state_observability_def)
next
  case (Inr p)
  obtain ev vr where p: "p = (ev, vr)" by (cases p)
  show ?thesis
  proof (cases "ncols A = 0")
    case True
    then show ?thesis
      by (simp add: state_observability_def Inr p out_pole_traverse o_plus_traverse vstack_def)
  next
    case False
    then show ?thesis
      by (simp add: state_observability_def Inr p out_pole_traverse o_plus_traverse
          vstack_o_plus list_ex_iff)
  qed
qed

section \<open>Exact arithmetic\<close>

lemma upt_3: "[0..<3] = [0, Suc 0, Suc (Suc 0)]"
  by (simp add: upt_rec numeral_3_eq_3)

lemma map_nth_upt: "map (\<lambda>i. f (xs ! i)) [0..<length xs] = map f xs"
  by (rule nth_equalityI) simp_all

lemma tabulate_rows:
  assumes "wf_matrix M"
  shows "tabulate (nrows M) (ncols M) (\<lambda>i j. rows M ! i ! j) = M"
proof -
  have "map (\<lambda>i. map ((!) (rows M ! i)) [0..<ncols M]) [0..<length (rows M)] = rows M"
  proof (rule nth_equalityI)
    show "length (map (\<lambda>i. map ((!) (rows M ! i)) [0..<ncols M]) [0..<length (rows M)])
          = length (rows M)" by simp
  next
    fix i assume "i < length (map (\<lambda>i. map ((!) (rows M ! i)) [0..<ncols M]) [0..<length (rows M)])"
    then have i: "i < length (rows M)" by simp
    then have "length (rows M ! i) = ncols M"
      using assms by (simp add: wf_matrix_def list_all_length)
    then have "map ((!) (rows M ! i)) [0..<ncols M] = rows M ! i"
      by (metis map_nth)
    with i show "map (\<lambda>i. map ((!) (rows M ! i)) [0..<ncols M]) [0..<length (rows M)] ! i
          = rows M ! i" by simp
  qed
  then show ?thesis by (cases M) (simp add: tabulate_def nrows_def)
qed

lemma tabulate_ring_mul: "tabulate (nrows X) (ncols Y) (ring_mul X Y) = ring_mm X Y"
  by (simp add: tabulate_def ring_mul_def [abs_def] ring_mm_def nrows_def
      map_nth_upt [of "\<lambda>r. map (\<lambda>j. dot_list r (column Y j)) [0..<ncols Y]"])

lemma nrows_ring_mm [simp]: "nrows (ring_mm X Y) = nrows X"
  by (simp add: ring_mm_def nrows_def)

lemma ncols_ring_mm [simp]: "ncols (ring_mm X Y) = ncols Y"
  by (simp add: ring_mm_def)

lemma wf_ring_mm [simp]: "wf_matrix (ring_mm X Y)"
  by (simp add: ring_mm_def wf_matrix_def list_all_iff)

lemma nrows_ring_mpow [simp]: "nrows (ring_mpow X k) = nrows X"
  by (induction k) simp_all

lemma ncols_ring_mpow: "nrows X = ncols X \<Longrightarrow> ncols (ring_mpow X k) = ncols X"
  by (induction k) simp_all

lemma wf_ring_mpow [simp]: "wf_matrix (ring_mpow X k)"
  by (cases k) simp_all

lemma tabulate_ring_pow:
  assumes "nrows X = ncols X"
  shows "tabulate (nrows X) (ncols X) (ring_pow X n) = ring_mpow X n"
  using tabulate_rows [of "ring_mpow X n"] assms
  by (simp add: ring_pow_def [abs_def] ncols_ring_mpow)

lemma dot_list_zeros: "dot_list (replicate m 0) c = (0::'a::comm_ring_1)"
proof (induction c arbitrary: m)
  case Nil
  show ?case by (simp add: dot_list_def)
next
  case (Cons a c)
  show ?case
  proof (cases m)
    case 0
    then show ?thesis by (simp add: dot_list_def)
  next
    case (Suc k)
    with Cons.IH [of k] show ?thesis by (simp add: dot_list_def)
  qed
qed

lemma unit_row_0:
  "map (\<lambda>j. if (0::nat) = j then 1 else (0::'a::comm_ring_1)) [0..<Suc m] = 1 # replicate m 0"
proof -
  have "map (\<lambda>j. if (0::nat) = j then 1 else (0::'a)) [0..<Suc m]
        = (if (0::nat) = 0 then 1 else 0) # map (\<lambda>j. if (0::nat) = Suc j then 1 else 0) [0..<m]"
    unfolding upt_conv_Cons [OF zero_less_Suc] map_Suc_upt [symmetric] by (simp add: comp_def)
  also have "\<dots> = 1 # replicate m 0"
    by (simp add: map_replicate_const)
  finally show ?thesis .
qed

lemma unit_row_Suc:
  "map (\<lambda>j. if Suc k = j then 1 else (0::'a::comm_ring_1)) [0..<Suc m]
   = 0 # map (\<lambda>j. if k = j then 1 else 0) [0..<m]"
proof -
  have "map (\<lambda>j. if Suc k = j then 1 else (0::'a)) [0..<Suc m]
        = (if Suc k = 0 then 1 else 0) # map (\<lambda>j. if Suc k = Suc j then 1 else 0) [0..<m]"
    unfolding upt_conv_Cons [OF zero_less_Suc] map_Suc_upt [symmetric] by (simp add: comp_def)
  then show ?thesis by simp
qed

lemma dot_list_unit:
  "length c = n \<Longrightarrow> i < n \<Longrightarrow>
   dot_list (map (\<lambda>j. if i = j then 1 else 0) [0..<n]) c = (c ! i :: 'a::comm_ring_1)"
proof (induction c arbitrary: n i)
  case Nil
  then show ?case by simp
next
  case (Cons a c)
  then obtain m where n: "n = Suc m" and m: "length c = m" by (cases n) auto
  show ?case
  proof (cases i)
    case 0
    have "dot_list (1 # replicate m 0) (a # c) = a + dot_list (replicate m 0) c"
      by (simp add: dot_list_def)
    then show ?thesis unfolding n 0 unit_row_0 by (simp add: dot_list_zeros)
  next
    case (Suc k)
    have k: "k < m" using Cons.prems n Suc by simp
    have "dot_list (0 # map (\<lambda>j. if k = j then 1 else 0) [0..<m]) (a # c)
          = dot_list (map (\<lambda>j. if k = j then 1 else 0) [0..<m]) c"
      by (simp add: dot_list_def)
    then show ?thesis unfolding n Suc unit_row_Suc using Cons.IH [OF m k] by simp
  qed
qed

lemma eye_ring_mm:
  assumes "wf_matrix B" and "nrows B = n"
  shows "ring_mm (eye n) B = (B :: 'a::comm_ring_1 matrix)"
proof -
  have len: "length (column B j) = n" for j
    using assms by simp
  have "map (\<lambda>r. map (\<lambda>j. dot_list r (column B j)) [0..<ncols B]) (rows (eye n :: 'a matrix))
        = map (\<lambda>i. map (\<lambda>j. column B j ! i) [0..<ncols B]) [0..<n]"
    by (simp add: eye_def tabulate_def dot_list_unit [OF len])
  also have "\<dots> = map (\<lambda>i. rows B ! i) [0..<n]"
  proof (rule map_cong [OF refl])
    fix i assume "i \<in> set [0..<n]"
    then have i: "i < length (rows B)" using assms by (simp add: nrows_def)
    then have "length (rows B ! i) = ncols B"
      using assms by (simp add: wf_matrix_def list_all_length)
    then have "map ((!) (rows B ! i)) [0..<ncols B] = rows B ! i"
      by (metis map_nth)
    with i show "map (\<lambda>j. column B j ! i) [0..<ncols B] = rows B ! i"
      by (simp add: column_def)
  qed
  also have "\<dots> = rows B"
    using assms(2) map_nth [of "rows B"] by (simp add: nrows_def)
  finally show ?thesis
    by (cases B) (simp add: ring_mm_def)
qed

lemma ring_mpow_one: "wf_matrix X \<Longrightarrow> ring_mpow X (Suc 0) = X"
  by (simp add: eye_ring_mm)

lemma mm_ring:
  "np_mul np = ring_mul \<Longrightarrow> mm np X Y = ring_mm X Y"
  by (simp add: mm_def tabulate_ring_mul)

lemma mpow_ring:
  "np_pow np = ring_pow \<Longrightarrow> nrows X = ncols X \<Longrightarrow> mpow np X n = ring_mpow X n"
  using tabulate_ring_pow [of X n] by (simp add: mpow_def)

lemma c_plus_ring:
  assumes "np_mul np = ring_mul" "np_pow np = ring_pow" "nrows A = ncols A"
  shows "c_plus np A B = map (\<lambda>n. ring_mm (ring_mpow A n) B) [0..<ncols A]"
  using assms by (simp add: c_plus_def mm_ring mpow_ring)

lemma o_plus_ring:
  assumes "np_mul np = ring_mul" "np_pow np = ring_pow" "nrows A = ncols A"
  shows "o_plus np A C = map (\<lambda>n. ring_mm C (ring_mpow A n)) [0..<ncols A]"
  using assms by (simp add: o_plus_def mm_ring mpow_ring)

section \<open>Properties of state controllability\<close>

lemma nth_concat_uniform:
  "\<forall>x\<in>set xss. length x = m \<Longrightarrow> k < length xss \<Longrightarrow> j < m \<Longrightarrow>
   concat xss ! (k * m + j) = xss ! k ! j"
proof (induction xss arbitrary: k)
  case Nil
  then show ?case by simp
next
  case (Cons x xss)
  show ?case
  proof (cases k)
    case 0
    with Cons.prems show ?thesis by (simp add: nth_append)
  next
    case (Suc k')
    with Cons.prems have "concat xss ! (k' * m + j) = xss ! k' ! j"
      by (intro Cons.IH) simp_all
    with Cons.prems Suc show ?thesis by (simp add: nth_append)
  qed
qed

lemma state_controllability_Inr:
  assumes "state_controllability np A B = Inr (state_control, u_p, control_matrix)"
  obtains ev vl where "np_eig np A True False = Inr (ev, vl)"
    and "ncols vl = 0 \<or> nrows vl = nrows B"
    and "0 < ncols A" and "nrows A = ncols A" and "nrows B = ncols A"
    and "u_p = pole_vectors np B vl"
    and "state_control = (\<not> (\<exists>x\<in>set u_p. np_norm np x = 0))"
    and "control_matrix = control_matrix_value np A B"
proof (cases "np_eig np A True False")
  case (Inl err)
  with assms show ?thesis by (simp add: state_controllability_eq)
next
  case (Inr p)
  obtain ev vl where p: "p = (ev, vl)" by (cases p)
  let ?r = "Inr (\<not> (\<exists>x\<in>set (pole_vectors np B vl). np_norm np x = 0),
                    pole_vectors np B vl, control_matrix_value np A B)
            :: error + _"
  have eq: "Inr (state_control, u_p, control_matrix) =
      (if ncols vl \<noteq> 0 \<and> nrows vl \<noteq> nrows B then Inl ValueError
       else if ncols A = 0 then Inl ValueError
       else if nrows A \<noteq> ncols A then Inl LinAlgError
       else if ncols A \<noteq> nrows B then Inl ValueError
       else ?r)"
    using assms by (simp add: state_controllability_eq Inr p)
  have c1: "ncols vl = 0 \<or> nrows vl = nrows B"
    using eq by (cases "ncols vl \<noteq> 0 \<and> nrows vl \<noteq> nrows B") simp_all
  have c2: "0 < ncols A"
    using eq c1 by (cases "ncols A = 0") auto
  have c3: "nrows A = ncols A"
    using eq c1 c2 by (cases "nrows A = ncols A") auto
  have c4: "nrows B = ncols A"
    using eq c1 c2 c3 by (cases "nrows B = ncols A") auto
  have "Inr (state_control, u_p, control_matrix) = ?r"
    using eq c1 c2 c3 c4 by auto
  then have "u_p = pole_vectors np B vl"
    "state_control = (\<not> (\<exists>x\<in>set u_p. np_norm np x = 0))"
    "control_matrix = control_matrix_value np A B"
    by simp_all
  with Inr p c1 c2 c3 c4 show ?thesis by (intro that) simp_all
qed

lemma control_matrix_row:
  "i < ncols A \<Longrightarrow> rows (control_matrix_value np A B) ! i
     = concat (map (\<lambda>k. rows (mm np (mpow np A k) B) ! i) [0..<ncols A])"
  by (simp add: control_matrix_value_def c_plus_def comp_def)

lemma mm_row_length: "i < nrows X \<Longrightarrow> length (rows (mm np X Y) ! i) = ncols Y"
  by (simp add: mm_def tabulate_row_length)

lemma mm_nth: "i < nrows X \<Longrightarrow> j < ncols Y \<Longrightarrow> rows (mm np X Y) ! i ! j = np_mul np X Y i j"
  by (simp add: mm_def tabulate_nth)

lemma control_matrix_wf:
  assumes "nrows A = ncols A"
  shows "wf_matrix (control_matrix_value np A B)"
proof -
  have "length (concat (map (\<lambda>N. rows N ! i) (c_plus np A B))) = ncols A * ncols B"
    if "i < ncols A" for i
  proof -
    have "length (rows (mm np (mpow np A k) B) ! i) = ncols B" for k
      using that assms by (simp add: mm_row_length)
    then show ?thesis
      by (simp add: c_plus_def length_concat comp_def sum_list_triv)
  qed
  then show ?thesis
    by (simp add: control_matrix_value_def wf_matrix_def list_all_iff)
qed

lemma control_matrix_nth:
  assumes "nrows A = ncols A" and "i < ncols A" and "k < ncols A" and "j < ncols B"
  shows "rows (control_matrix_value np A B) ! i ! (k * ncols B + j)
         = np_mul np (mpow np A k) B i j"
proof -
  let ?xss = "map (\<lambda>k. rows (mm np (mpow np A k) B) ! i) [0..<ncols A]"
  have "\<forall>x\<in>set ?xss. length x = ncols B"
    using assms by (auto simp: mm_row_length)
  moreover have "k < length ?xss" using assms by simp
  ultimately have "concat ?xss ! (k * ncols B + j) = ?xss ! k ! j"
    using assms(4) by (rule nth_concat_uniform)
  then show ?thesis
    using assms by (simp add: control_matrix_row mm_nth)
qed

text \<open>
  Claim C1. Whenever \<open>state_controllability\<close> returns, the eigen-decomposition has
  returned left eigenvectors, and the second component holds one input pole vector per
  column \<open>v\<^sub>i\<close> of the eigenvector matrix: the product, as the library computes it, of
  the conjugate transpose of \<open>B\<close> with \<open>v\<^sub>i\<close> as a column. The first component is
  \<open>True\<close> exactly when no pole vector has a norm equal to \<open>0.0\<close>, a test by equality on
  what the library's norm returns, without any tolerance. Nothing is assumed of the
  eigenvalues.
\<close>

theorem state_controllability_pole_vectors:
  assumes "state_controllability np A B = Inr (state_control, u_p, control_matrix)"
  shows "\<exists>ev vl. np_eig np A True False = Inr (ev, vl) \<and>
    length u_p = ncols vl \<and>
    (\<forall>i<ncols vl. matmul_c np (H np B) (col_matrix vl i) = Inr (u_p ! i) \<and>
       shape (u_p ! i) = (ncols B, 1) \<and>
       (\<forall>j<ncols B. rows (u_p ! i) ! j ! 0 = np_mul_c np (H np B) (col_matrix vl i) j 0) \<and>
       rows (col_matrix vl i) = map (\<lambda>r. [r ! i]) (rows vl)) \<and>
    shape (H np B) = (ncols B, nrows B) \<and>
    (\<forall>i<ncols B. \<forall>j<nrows B. rows (H np B) ! i ! j = np_conj np (rows B ! j ! i)) \<and>
    state_control = (\<not> (\<exists>x\<in>set u_p. np_norm np x = 0))"
proof -
  from assms obtain ev vl where e: "np_eig np A True False = Inr (ev, vl)"
    and v: "ncols vl = 0 \<or> nrows vl = nrows B"
    and u: "u_p = pole_vectors np B vl"
    and s: "state_control = (\<not> (\<exists>x\<in>set u_p. np_norm np x = 0))"
    by (rule state_controllability_Inr)
  have "matmul_c np (H np B) (col_matrix vl i) = Inr (u_p ! i) \<and>
       shape (u_p ! i) = (ncols B, 1) \<and>
       (\<forall>j<ncols B. rows (u_p ! i) ! j ! 0 = np_mul_c np (H np B) (col_matrix vl i) j 0) \<and>
       rows (col_matrix vl i) = map (\<lambda>r. [r ! i]) (rows vl)"
    if "i < ncols vl" for i
  proof -
    from that v have n: "nrows vl = nrows B" by auto
    have ui: "u_p ! i = mm_c np (H np B) (col_matrix vl i)"
      using that by (simp add: u pole_vectors_def)
    have "matmul_c np (H np B) (col_matrix vl i) = Inr (u_p ! i)"
      by (simp add: ui matmul_c_def n)
    moreover have "shape (u_p ! i) = (ncols B, 1)"
      by (simp add: ui shape_def mm_c_def)
    moreover have "\<forall>j<ncols B. rows (u_p ! i) ! j ! 0
        = np_mul_c np (H np B) (col_matrix vl i) j 0"
      by (simp add: ui mm_c_def tabulate_nth)
    moreover have "rows (col_matrix vl i) = map (\<lambda>r. [r ! i]) (rows vl)"
      by (simp add: col_matrix_eq)
    ultimately show ?thesis by blast
  qed
  moreover have "length u_p = ncols vl"
    by (simp add: u pole_vectors_def)
  moreover have "shape (H np B) = (ncols B, nrows B)"
    by (simp add: shape_def)
  ultimately show ?thesis
    using e s by (auto simp: H_nth)
qed


lemma mm_c_exact [simp]: "mm_c (numpy_exact eig) X v = ring_mm X v"
  by (simp add: mm_c_def numpy_exact_def tabulate_ring_mul)

lemma H_exact [simp]: "H (numpy_exact eig) B = map_matrix cnj (transpose_m B)"
  by (simp add: H_def numpy_exact_def)

lemma eig_diagonal_2:
  "eig_diagonal value_of (Matrix 2 [[a, b], [c, d]]) left right
     = Inr ([value_of a, value_of d], Matrix 2 [[1, 0], [0, 1]])"
  by (simp add: eig_diagonal_def nrows_def eye_def tabulate_def upt_2)

lemma pole_vectors_example:
  "pole_vectors (numpy_exact eig) (Matrix (Suc 0) [[a], [b]]) (Matrix 2 [[1, 0], [0, 1]])
     = [Matrix (Suc 0) [[cnj a]], Matrix (Suc 0) [[cnj b]]]"
  by (simp add: pole_vectors_def ring_mm_def map_matrix_def transpose_m_def col_matrix_eq
      column_def nrows_def dot_list_def upt_2)

lemma norm_exact_single: "norm_exact (Matrix n [[c]]) = 0 \<longleftrightarrow> c = 0"
  by (simp add: norm_exact_def complex_eq_iff sum_power2_eq_zero_iff)

lemma controllability_example:
  "\<exists>cm. state_controllability (numpy_exact (eig_diagonal id)) (Matrix 2 [[1, 0], [0, 2]])
           (Matrix 1 [[a], [b]])
     = Inr (a \<noteq> 0 \<and> b \<noteq> 0, [Matrix 1 [[cnj a]], Matrix 1 [[cnj b]]], cm)"
proof -
  have e: "np_eig (numpy_exact (eig_diagonal id)) (Matrix 2 [[1, 0], [0, 2]]) True False
           = Inr ([1, 2], Matrix 2 [[1, 0], [0, 1]])"
    by (simp add: numpy_exact_def eig_diagonal_2)
  have n: "\<And>c k. np_norm (numpy_exact (eig_diagonal id)) (Matrix k [[c]]) = 0 \<longleftrightarrow> c = 0"
    by (simp add: numpy_exact_def norm_exact_single)
  show ?thesis
    by (simp add: state_controllability_eq e pole_vectors_example nrows_def n)
qed

theorem state_controllability_pole_vectors_witness:
  "(\<exists>cm. state_controllability (numpy_exact (eig_diagonal id)) (Matrix 2 [[1, 0], [0, 2]])
            (Matrix 1 [[\<i>], [0]])
      = Inr (False, [Matrix 1 [[- \<i>]], Matrix 1 [[0]]], cm)) \<and>
   (\<exists>cm. state_controllability (numpy_exact (eig_diagonal id)) (Matrix 2 [[1, 0], [0, 2]])
            (Matrix 1 [[\<i>], [1]])
      = Inr (True, [Matrix 1 [[- \<i>]], Matrix 1 [[1]]], cm))"
proof -
  let ?np = "numpy_exact (eig_diagonal id)" and ?A = "Matrix 2 [[1, 0], [0, 2 :: complex]]"
  have "\<exists>cm. state_controllability ?np ?A (Matrix 1 [[\<i>], [b]])
      = Inr (\<not> (\<exists>x\<in>set [Matrix 1 [[- \<i>]], Matrix 1 [[cnj b]]]. np_norm ?np x = 0),
             [Matrix 1 [[- \<i>]], Matrix 1 [[cnj b]]], cm)" for b
  proof -
    from controllability_example [of \<i> b] obtain cm where
      r: "state_controllability ?np ?A (Matrix 1 [[\<i>], [b]])
          = Inr (\<i> \<noteq> 0 \<and> b \<noteq> 0, [Matrix 1 [[cnj \<i>]], Matrix 1 [[cnj b]]], cm)"
      by blast
    from state_controllability_pole_vectors [OF r]
    have "(\<i> \<noteq> 0 \<and> b \<noteq> 0)
          = (\<not> (\<exists>x\<in>set [Matrix 1 [[cnj \<i>]], Matrix 1 [[cnj b]]]. np_norm ?np x = 0))"
      by blast
    with r show ?thesis by auto
  qed
  from this [of 0] this [of 1] show ?thesis
    by (simp add: numpy_exact_def norm_exact_single)
qed

text \<open>
  Claim C7. Whenever \<open>state_controllability\<close> returns, \<open>A\<close> is square of a size
  \<open>n \<ge> 1\<close>, \<open>B\<close> has \<open>n\<close> rows, and the third component is the horizontal
  concatenation of the blocks \<open>A\<^sup>k B\<close> for \<open>k = 0, \<dots>, n - 1\<close>, powers and products
  being those of the library in the dtype of the arrays: row \<open>i\<close> of the result is row
  \<open>i\<close> of each block in turn, its entry at column \<open>k m + j\<close> is the entry at \<open>(i, j)\<close>
  of block \<open>k\<close>, and its shape is \<open>n \<times> (n m)\<close>. The instance
  \<open>A = [[0, 1], [0, 0]]\<close>, \<open>B = [[0], [1]]\<close> is the first witness below.
\<close>

theorem controllability_matrix_blocks:
  assumes "state_controllability np A B = Inr (state_control, u_p, control_matrix)"
  shows "0 < ncols A \<and> nrows A = ncols A \<and> nrows B = ncols A \<and>
    (\<forall>k<ncols A. matrix_power np A k = Inr (mpow np A k) \<and>
       matmul np (mpow np A k) B = Inr (mm np (mpow np A k) B)) \<and>
    hstack (map (\<lambda>k. mm np (mpow np A k) B) [0..<ncols A]) = Inr control_matrix \<and>
    (\<forall>i<ncols A. rows control_matrix ! i
        = concat (map (\<lambda>k. rows (mm np (mpow np A k) B) ! i) [0..<ncols A])) \<and>
    (\<forall>i<ncols A. \<forall>k<ncols A. \<forall>j<ncols B.
       rows control_matrix ! i ! (k * ncols B + j) = np_mul np (mpow np A k) B i j) \<and>
    (\<forall>k. \<forall>i<ncols A. \<forall>j<ncols A. rows (mpow np A k) ! i ! j = np_pow np A k i j) \<and>
    shape control_matrix = (ncols A, ncols A * ncols B) \<and>
    wf_matrix control_matrix"
proof -
  from assms obtain ev vl where pos: "0 < ncols A" and sq: "nrows A = ncols A"
    and B: "nrows B = ncols A" and cm: "control_matrix = control_matrix_value np A B"
    by (rule state_controllability_Inr)
  have p: "\<forall>k<ncols A. matrix_power np A k = Inr (mpow np A k) \<and>
       matmul np (mpow np A k) B = Inr (mm np (mpow np A k) B)"
    using sq B by (simp add: matrix_power_def matmul_def)
  have h: "hstack (map (\<lambda>k. mm np (mpow np A k) B) [0..<ncols A]) = Inr control_matrix"
    using hstack_c_plus [OF pos sq, of np B] by (simp add: cm c_plus_def)
  have r: "\<forall>i<ncols A. rows control_matrix ! i
        = concat (map (\<lambda>k. rows (mm np (mpow np A k) B) ! i) [0..<ncols A])"
    by (simp add: cm control_matrix_row)
  have e: "\<forall>i<ncols A. \<forall>k<ncols A. \<forall>j<ncols B.
       rows control_matrix ! i ! (k * ncols B + j) = np_mul np (mpow np A k) B i j"
    using sq by (simp add: cm control_matrix_nth)
  have w: "\<forall>k. \<forall>i<ncols A. \<forall>j<ncols A. rows (mpow np A k) ! i ! j = np_pow np A k i j"
    using sq by (simp add: mpow_def tabulate_nth)
  have s: "shape control_matrix = (ncols A, ncols A * ncols B)"
    by (simp add: cm shape_def control_matrix_value_def nrows_def)
  have "wf_matrix control_matrix"
    using sq by (simp add: cm control_matrix_wf)
  with pos sq B p h r e w s show ?thesis by blast
qed

lemma mm_int64 [simp]: "mm (numpy_int64 eig) X Y = ring_mm X Y"
  by (simp add: mm_ring numpy_int64_def)

lemma mpow_int64: "nrows X = ncols X \<Longrightarrow> mpow (numpy_int64 eig) X n = ring_mpow X n"
  by (simp add: mpow_ring numpy_int64_def)

lemma mm_exact [simp]: "mm (numpy_exact eig) X Y = ring_mm X Y"
  by (simp add: mm_ring numpy_exact_def)

lemma mpow_exact: "nrows X = ncols X \<Longrightarrow> mpow (numpy_exact eig) X n = ring_mpow X n"
  by (simp add: mpow_ring numpy_exact_def)

text \<open>In exact arithmetic, as on 64-bit integers, the first block is \<open>B\<close> itself.\<close>

lemma first_block_ring:
  assumes "np_mul np = ring_mul" "np_pow np = ring_pow"
    and "nrows A = ncols A" "nrows B = ncols A" "wf_matrix B"
  shows "mm np (mpow np A 0) B = B"
  using assms by (simp add: mm_ring mpow_ring eye_ring_mm)

lemma hstack_example_2:
  "hstack (map (\<lambda>k. ring_mm (ring_mpow (Matrix 2 [[0, 1], [0, 0]]) k) (Matrix 1 [[0], [1]]))
     [0..<2]) = Inr (Matrix 2 [[0, 1], [1, 0 :: 64 word]])"
  by (simp add: upt_2 hstack_def ring_mm_def eye_def tabulate_def nrows_def column_def
      dot_list_def)

lemma hstack_example_wrap:
  "hstack (map (\<lambda>k. ring_mm (ring_mpow (Matrix 2 [[2 ^ 40, 0], [0, 1]]) k)
                  (Matrix 1 [[2 ^ 40], [1]])) [0..<2])
     = Inr (Matrix 2 [[2 ^ 40, 0], [1, 1 :: 64 word]])"
  by (simp add: upt_2 hstack_def ring_mm_def eye_def tabulate_def nrows_def column_def
      dot_list_def)

lemma hstack_example_3:
  "hstack (map (\<lambda>k. ring_mm (ring_mpow (Matrix 3 [[1, 0, 0], [0, 2, 0], [0, 0, 3]]) k)
                  (Matrix 1 [[1], [1], [1]])) [0..<3])
     = Inr (Matrix 3 [[1, 1, 1], [1, 2, 4], [1, 3, 9 :: 64 word]])"
  by (simp add: upt_3 upt_2 hstack_def ring_mm_def eye_def tabulate_def nrows_def column_def
      dot_list_def)


theorem controllability_matrix_blocks_witness:
  "(\<forall>ev r1 r2. \<exists>state_control u_p.
      state_controllability (numpy_int64 (eig_const ev (Matrix 2 [r1, r2])))
        (Matrix 2 [[0, 1], [0, 0]]) (Matrix 1 [[0], [1]])
      = Inr (state_control, u_p, Matrix 2 [[0, 1], [1, 0]])) \<and>
   (\<forall>ev r1 r2 r3. \<exists>state_control u_p.
      state_controllability (numpy_int64 (eig_const ev (Matrix 3 [r1, r2, r3])))
        (Matrix 3 [[1, 0, 0], [0, 2, 0], [0, 0, 3]]) (Matrix 1 [[1], [1], [1]])
      = Inr (state_control, u_p, Matrix 3 [[1, 1, 1], [1, 2, 4], [1, 3, 9]])) \<and>
   (\<forall>ev r1 r2. \<exists>state_control u_p.
      state_controllability (numpy_int64 (eig_const ev (Matrix 2 [r1, r2])))
        (Matrix 2 [[2 ^ 40, 0], [0, 1]]) (Matrix 1 [[2 ^ 40], [1]])
      = Inr (state_control, u_p, Matrix 2 [[2 ^ 40, 0], [1, 1]]))"
proof -
  have step: "\<exists>state_control u_p. state_controllability (numpy_int64 (eig_const ev vl)) A B
      = Inr (state_control, u_p, M)"
    if h: "hstack (map (\<lambda>k. ring_mm (ring_mpow A k) B) [0..<n]) = Inr M"
      and n: "ncols A = n" "nrows A = n" "nrows B = n" "nrows vl = n" "0 < n"
    for ev vl n and A B M :: "64 word matrix"
  proof -
    let ?np = "numpy_int64 (eig_const ev vl) :: (64 word, complex) numpy"
    have "np_eig ?np A True False = Inr (ev, vl)"
      by (simp add: numpy_int64_def eig_const_def)
    then obtain sc up cm where
      r: "state_controllability ?np A B = Inr (sc, up, cm)"
      using n by (simp add: state_controllability_eq)
    from controllability_matrix_blocks [OF r]
    have "hstack (map (\<lambda>k. mm ?np (mpow ?np A k) B) [0..<ncols A]) = Inr cm"
      by blast
    then have "hstack (map (\<lambda>k. ring_mm (ring_mpow A k) B) [0..<n]) = Inr cm"
      using n by (simp add: mpow_int64)
    with h have "cm = M" by simp
    with r show ?thesis by blast
  qed
  have a: "\<exists>state_control u_p.
      state_controllability (numpy_int64 (eig_const ev (Matrix 2 [r1, r2])))
        (Matrix 2 [[0, 1], [0, 0]]) (Matrix 1 [[0], [1]])
      = Inr (state_control, u_p, Matrix 2 [[0, 1], [1, 0]])" for ev r1 r2
    by (rule step [where n = 2, OF hstack_example_2]) (simp_all add: nrows_def)
  have b: "\<exists>state_control u_p.
      state_controllability (numpy_int64 (eig_const ev (Matrix 3 [r1, r2, r3])))
        (Matrix 3 [[1, 0, 0], [0, 2, 0], [0, 0, 3]]) (Matrix 1 [[1], [1], [1]])
      = Inr (state_control, u_p, Matrix 3 [[1, 1, 1], [1, 2, 4], [1, 3, 9]])" for ev r1 r2 r3
    by (rule step [where n = 3, OF hstack_example_3]) (simp_all add: nrows_def)
  have c: "\<exists>state_control u_p.
      state_controllability (numpy_int64 (eig_const ev (Matrix 2 [r1, r2])))
        (Matrix 2 [[2 ^ 40, 0], [0, 1]]) (Matrix 1 [[2 ^ 40], [1]])
      = Inr (state_control, u_p, Matrix 2 [[2 ^ 40, 0], [1, 1]])" for ev r1 r2
    by (rule step [where n = 2, OF hstack_example_wrap]) (simp_all add: nrows_def)
  from a b c show ?thesis by blast
qed

section \<open>Properties of state observability\<close>

lemma state_observability_Inr:
  assumes "state_observability np A C = Inr (state_obsr, out_pole_vec, observe_matrix)"
  obtains ev vr where "np_eig np A False True = Inr (ev, vr)"
    and "ncols vr = 0 \<or> nrows vr = ncols C"
    and "0 < ncols A" and "nrows A = ncols A" and "ncols C = ncols A"
    and "out_pole_vec = out_pole_vectors np C vr"
    and "state_obsr = (\<not> (\<exists>x\<in>set out_pole_vec. np_sum np x = 0))"
    and "observe_matrix = observe_matrix_value np A C"
proof (cases "np_eig np A False True")
  case (Inl err)
  with assms show ?thesis by (simp add: state_observability_eq)
next
  case (Inr p)
  obtain ev vr where p: "p = (ev, vr)" by (cases p)
  let ?r = "Inr (\<not> (\<exists>x\<in>set (out_pole_vectors np C vr). np_sum np x = 0),
                    out_pole_vectors np C vr, observe_matrix_value np A C)
            :: error + _"
  have eq: "Inr (state_obsr, out_pole_vec, observe_matrix) =
      (if ncols vr \<noteq> 0 \<and> nrows vr \<noteq> ncols C then Inl ValueError
       else if ncols A = 0 then Inl ValueError
       else if nrows A \<noteq> ncols A then Inl LinAlgError
       else if ncols C \<noteq> ncols A then Inl ValueError
       else ?r)"
    using assms by (simp add: state_observability_eq Inr p)
  have c1: "ncols vr = 0 \<or> nrows vr = ncols C"
    using eq by (cases "ncols vr \<noteq> 0 \<and> nrows vr \<noteq> ncols C") simp_all
  have c2: "0 < ncols A"
    using eq c1 by (cases "ncols A = 0") auto
  have c3: "nrows A = ncols A"
    using eq c1 c2 by (cases "nrows A = ncols A") auto
  have c4: "ncols C = ncols A"
    using eq c1 c2 c3 by (cases "ncols C = ncols A") auto
  have "Inr (state_obsr, out_pole_vec, observe_matrix) = ?r"
    using eq c1 c2 c3 c4 by auto
  then have "out_pole_vec = out_pole_vectors np C vr"
    "state_obsr = (\<not> (\<exists>x\<in>set out_pole_vec. np_sum np x = 0))"
    "observe_matrix = observe_matrix_value np A C"
    by simp_all
  with Inr p c1 c2 c3 c4 show ?thesis by (intro that) simp_all
qed

text \<open>
  Claim C2. Whenever \<open>state_observability\<close> returns, the eigen-decomposition has
  returned right eigenvectors, and the second component holds one output pole vector
  per column \<open>v\<^sub>i\<close> of the eigenvector matrix: the product \<open>C v\<^sub>i\<close> as the library computes
  it, a single row with one entry per row of \<open>C\<close>, each entry then rounded by the
  library to three decimals. The first component is \<open>False\<close> exactly when the sum of the
  entries of some output pole vector, as the library adds them, is equal to \<open>0.0\<close>.
  Nothing is assumed of the eigenvalues.
\<close>

theorem state_observability_pole_vectors:
  assumes "state_observability np A C = Inr (state_obsr, out_pole_vec, observe_matrix)"
  shows "\<exists>ev vr. np_eig np A False True = Inr (ev, vr) \<and>
    length out_pole_vec = ncols vr \<and>
    (\<forall>i<ncols vr. \<exists>y. dot_vec np C (column vr i) = Inr y \<and>
       out_pole_vec ! i = map_matrix (np_around np 3) y \<and>
       shape y = (1, nrows C) \<and>
       (\<forall>j<nrows C. rows y ! 0 ! j = np_dot_c np C (column vr i) j) \<and>
       shape (out_pole_vec ! i) = (1, nrows C) \<and>
       (\<forall>j<nrows C. rows (out_pole_vec ! i) ! 0 ! j
          = np_around np 3 (np_dot_c np C (column vr i) j)) \<and>
       column vr i = map (\<lambda>r. r ! i) (rows vr)) \<and>
    (state_obsr = False \<longleftrightarrow> (\<exists>y\<in>set out_pole_vec. np_sum np y = 0))"
proof -
  from assms obtain ev vr where e: "np_eig np A False True = Inr (ev, vr)"
    and v: "ncols vr = 0 \<or> nrows vr = ncols C"
    and u: "out_pole_vec = out_pole_vectors np C vr"
    and s: "state_obsr = (\<not> (\<exists>x\<in>set out_pole_vec. np_sum np x = 0))"
    by (rule state_observability_Inr)
  have "\<exists>y. dot_vec np C (column vr i) = Inr y \<and>
       out_pole_vec ! i = map_matrix (np_around np 3) y \<and>
       shape y = (1, nrows C) \<and>
       (\<forall>j<nrows C. rows y ! 0 ! j = np_dot_c np C (column vr i) j) \<and>
       shape (out_pole_vec ! i) = (1, nrows C) \<and>
       (\<forall>j<nrows C. rows (out_pole_vec ! i) ! 0 ! j
          = np_around np 3 (np_dot_c np C (column vr i) j)) \<and>
       column vr i = map (\<lambda>r. r ! i) (rows vr)"
    if "i < ncols vr" for i
  proof -
    from that v have n: "nrows vr = ncols C" by auto
    let ?y = "C_dot np C (column vr i)"
    have "dot_vec np C (column vr i) = Inr ?y"
      by (simp add: dot_vec_def C_dot_def length_column n)
    moreover have "out_pole_vec ! i = map_matrix (np_around np 3) ?y"
      using that by (simp add: u out_pole_vectors_def)
    moreover have "shape ?y = (1, nrows C)"
      by (simp add: shape_def C_dot_def nrows_def)
    moreover have "\<forall>j<nrows C. rows ?y ! 0 ! j = np_dot_c np C (column vr i) j"
      by (simp add: C_dot_def)
    moreover have "shape (map_matrix (np_around np 3) ?y) = (1, nrows C)"
      by (simp add: shape_def C_dot_def nrows_def map_matrix_def)
    moreover have "\<forall>j<nrows C. rows (map_matrix (np_around np 3) ?y) ! 0 ! j
          = np_around np 3 (np_dot_c np C (column vr i) j)"
      by (simp add: C_dot_def map_matrix_def)
    moreover have "column vr i = map (\<lambda>r. r ! i) (rows vr)"
      by (simp add: column_def)
    ultimately show ?thesis by simp
  qed
  moreover have "length out_pole_vec = ncols vr"
    by (simp add: u out_pole_vectors_def)
  ultimately show ?thesis
    using e s by auto
qed

lemma around_exact_example:
  "around_exact 3 (1 / 4096) = 0" "around_exact 3 (255 / 2048) = 1 / 8"
  "around_exact 3 1 = 1" "around_exact 3 (- 1) = - 1"
  by (simp_all add: around_exact_def around_real_def rint_def Let_def complex_eq_iff)

lemma out_pole_vectors_example_1:
  "out_pole_vectors (numpy_exact eig) (Matrix 2 [[a, b]]) (Matrix 2 [[1, 0], [0, 1]])
     = [Matrix (Suc 0) [[around_exact 3 a]], Matrix (Suc 0) [[around_exact 3 b]]]"
  by (simp add: out_pole_vectors_def C_dot_def numpy_exact_def map_matrix_def
      column_def nrows_def dot_list_def upt_2)

lemma out_pole_vectors_example_2:
  "out_pole_vectors (numpy_exact eig) (Matrix 2 [[a, b], [c, d]]) (Matrix 2 [[1, 0], [0, 1]])
     = [Matrix 2 [[around_exact 3 a, around_exact 3 c]],
        Matrix 2 [[around_exact 3 b, around_exact 3 d]]]"
  by (simp add: out_pole_vectors_def C_dot_def numpy_exact_def map_matrix_def
      column_def nrows_def dot_list_def upt_2)

lemma sum_exact_row: "sum_exact (Matrix n [[a]]) = a" "sum_exact (Matrix n [[a, b]]) = a + b"
  by (simp_all add: sum_exact_def)

lemma observability_example_1:
  "\<exists>om. state_observability (numpy_exact (eig_diagonal id)) (Matrix 2 [[1, 0], [0, 2]])
           (Matrix 2 [[a, b]])
     = Inr (around_exact 3 a \<noteq> 0 \<and> around_exact 3 b \<noteq> 0,
            [Matrix 1 [[around_exact 3 a]], Matrix 1 [[around_exact 3 b]]], om)"
proof -
  have e: "np_eig (numpy_exact (eig_diagonal id)) (Matrix 2 [[1, 0], [0, 2]]) False True
           = Inr ([1, 2], Matrix 2 [[1, 0], [0, 1]])"
    by (simp add: numpy_exact_def eig_diagonal_2)
  have n: "\<And>M. np_sum (numpy_exact (eig_diagonal id)) M = sum_exact M"
    by (simp add: numpy_exact_def)
  show ?thesis
    by (simp add: state_observability_eq e out_pole_vectors_example_1 nrows_def n
        sum_exact_row)
qed

lemma observability_example_2:
  "\<exists>om. state_observability (numpy_exact (eig_diagonal id)) (Matrix 2 [[1, 0], [0, 2]])
           (Matrix 2 [[a, b], [c, d]])
     = Inr (around_exact 3 a + around_exact 3 c \<noteq> 0 \<and> around_exact 3 b + around_exact 3 d \<noteq> 0,
            [Matrix 2 [[around_exact 3 a, around_exact 3 c]],
             Matrix 2 [[around_exact 3 b, around_exact 3 d]]], om)"
proof -
  have e: "np_eig (numpy_exact (eig_diagonal id)) (Matrix 2 [[1, 0], [0, 2]]) False True
           = Inr ([1, 2], Matrix 2 [[1, 0], [0, 1]])"
    by (simp add: numpy_exact_def eig_diagonal_2)
  have n: "\<And>M. np_sum (numpy_exact (eig_diagonal id)) M = sum_exact M"
    by (simp add: numpy_exact_def)
  show ?thesis
    by (simp add: state_observability_eq e out_pole_vectors_example_2 nrows_def n
        sum_exact_row)
qed

theorem state_observability_pole_vectors_witness:
  "(\<exists>om. state_observability (numpy_exact (eig_diagonal id)) (Matrix 2 [[1, 0], [0, 2]])
            (Matrix 2 [[1, 1 / 4096]])
      = Inr (False, [Matrix 1 [[1]], Matrix 1 [[0]]], om)) \<and>
   (\<exists>om. state_observability (numpy_exact (eig_diagonal id)) (Matrix 2 [[1, 0], [0, 2]])
            (Matrix 2 [[1, 255 / 2048]])
      = Inr (True, [Matrix 1 [[1]], Matrix 1 [[1 / 8]]], om)) \<and>
   (\<exists>om. state_observability (numpy_exact (eig_diagonal id)) (Matrix 2 [[1, 0], [0, 2]])
            (Matrix 2 [[1, 1], [- 1, 1]])
      = Inr (False, [Matrix 2 [[1, - 1]], Matrix 2 [[1, 1]]], om))"
proof -
  let ?np = "numpy_exact (eig_diagonal id)" and ?A = "Matrix 2 [[1, 0], [0, 2 :: complex]]"
  have flag: "state_obsr = (\<not> (\<exists>y\<in>set out_pole_vec. sum_exact y = 0))"
    if r: "state_observability ?np ?A C = Inr (state_obsr, out_pole_vec, om)"
    for C state_obsr out_pole_vec om
  proof -
    from state_observability_pole_vectors [OF r]
    have "state_obsr = False \<longleftrightarrow> (\<exists>y\<in>set out_pole_vec. np_sum ?np y = 0)"
      by blast
    then show ?thesis by (auto simp: numpy_exact_def)
  qed
  have a: "\<exists>om. state_observability ?np ?A (Matrix 2 [[1, 1 / 4096]])
      = Inr (False, [Matrix 1 [[1]], Matrix 1 [[0]]], om)"
  proof -
    from observability_example_1 [of 1 "1 / 4096"] obtain b om where
      r: "state_observability ?np ?A (Matrix 2 [[1, 1 / 4096]])
          = Inr (b, [Matrix 1 [[1]], Matrix 1 [[0]]], om)"
      by (auto simp: around_exact_example)
    from flag [OF r] have "b = False" by (simp add: sum_exact_row)
    with r show ?thesis by blast
  qed
  have b: "\<exists>om. state_observability ?np ?A (Matrix 2 [[1, 255 / 2048]])
      = Inr (True, [Matrix 1 [[1]], Matrix 1 [[1 / 8]]], om)"
  proof -
    from observability_example_1 [of 1 "255 / 2048"] obtain b om where
      r: "state_observability ?np ?A (Matrix 2 [[1, 255 / 2048]])
          = Inr (b, [Matrix 1 [[1]], Matrix 1 [[1 / 8]]], om)"
      by (auto simp: around_exact_example)
    from flag [OF r] have "b = True" by (simp add: sum_exact_row)
    with r show ?thesis by blast
  qed
  have c: "\<exists>om. state_observability ?np ?A (Matrix 2 [[1, 1], [- 1, 1]])
      = Inr (False, [Matrix 2 [[1, - 1]], Matrix 2 [[1, 1]]], om)"
  proof -
    from observability_example_2 [of 1 1 "- 1" 1] obtain b om where
      r: "state_observability ?np ?A (Matrix 2 [[1, 1], [- 1, 1]])
          = Inr (b, [Matrix 2 [[1, - 1]], Matrix 2 [[1, 1]]], om)"
      by (auto simp: around_exact_example)
    from flag [OF r] have "b = False" by (simp add: sum_exact_row)
    with r show ?thesis by blast
  qed
  from a b c show ?thesis by blast
qed

section \<open>Properties of the minimal-realisation check\<close>

text \<open>
  Claim C8. \<open>is_min_realisation\<close> returns a value exactly when both analyses return,
  and the value is then the conjunction of their two booleans: it is \<open>True\<close> if and only
  if \<open>state_controllability\<close> and \<open>state_observability\<close> both report \<open>True\<close>.
\<close>

theorem is_min_realisation_conjunction:
  "is_min_realisation np A B C = Inr b \<longleftrightarrow>
     (\<exists>state_control in_pole_vec control_matrix state_obsr out_pole_vec observe_matrix.
        state_controllability np A B = Inr (state_control, in_pole_vec, control_matrix) \<and>
        state_observability np A C = Inr (state_obsr, out_pole_vec, observe_matrix) \<and>
        b = (state_control \<and> state_obsr))"
  by (auto simp: is_min_realisation_def split: sum.splits)

theorem is_min_realisation_conjunction_witness:
  "is_min_realisation (numpy_exact (eig_diagonal id)) (Matrix 2 [[1, 0], [0, 2]])
     (Matrix 1 [[1], [1]]) (Matrix 2 [[1, 1]])
     = Inr True \<and>
   is_min_realisation (numpy_exact (eig_diagonal id)) (Matrix 2 [[1, 0], [0, 2]])
     (Matrix 1 [[1], [0]]) (Matrix 2 [[1, 1]])
     = Inr False \<and>
   is_min_realisation (numpy_exact (eig_diagonal id)) (Matrix 2 [[1, 0], [0, 2]])
     (Matrix 1 [[1], [1]]) (Matrix 2 [[1, 1 / 4096]])
     = Inr False"
proof -
  let ?np = "numpy_exact (eig_diagonal id)" and ?A = "Matrix 2 [[1, 0], [0, 2 :: complex]]"
  from controllability_example [of 1 1] observability_example_1 [of 1 1]
  have a: "is_min_realisation ?np ?A (Matrix 1 [[1], [1]]) (Matrix 2 [[1, 1]]) = Inr True"
    unfolding is_min_realisation_conjunction by (auto simp: around_exact_example)
  from controllability_example [of 1 0] observability_example_1 [of 1 1]
  have b: "is_min_realisation ?np ?A (Matrix 1 [[1], [0]]) (Matrix 2 [[1, 1]]) = Inr False"
    unfolding is_min_realisation_conjunction by (auto simp: around_exact_example)
  from controllability_example [of 1 1] observability_example_1 [of 1 "1 / 4096"]
  have c: "is_min_realisation ?np ?A (Matrix 1 [[1], [1]]) (Matrix 2 [[1, 1 / 4096]])
           = Inr False"
    unfolding is_min_realisation_conjunction by (auto simp: around_exact_example)
  from a b c show ?thesis by blast
qed

section \<open>Properties of the direction extractor\<close>

lemma pole_zero_directions_eq:
  "pole_zero_directions G SVD vec dir_type display_type e =
     traverse (pz_step G SVD (if dir_type = ''p'' then 0 else - 1) display_type
                 (if dir_type = ''p'' then e else 0)) vec"
  by (simp add: pole_zero_directions_def)

lemma py_column_first:
  "py_column M 0 = (if 0 < ncols M then Inr (column M 0) else Inl IndexError)"
  by (simp add: py_column_def)

lemma py_column_last:
  "py_column M (- 1) = (if 0 < ncols M then Inr (column M (ncols M - 1)) else Inl IndexError)"
proof -
  have "nat (int (ncols M) - 1) = ncols M - 1" by simp
  then show ?thesis by (auto simp: py_column_def Let_def)
qed

lemma pz_step_cases:
  "pz_step G SVD dt display_type e d = Inr r \<longleftrightarrow>
     (\<exists>g U S V u y. G (d + e) = Inr g \<and> SVD g = Inr (U, S, V) \<and>
        py_column V dt = Inr u \<and> py_column U dt = Inr y \<and>
        r = pz_entry display_type d u y)"
  by (auto simp: pz_step_def split: sum.splits prod.splits)

lemma pz_step_display:
  "(\<exists>r. pz_step G SVD dt display1 e d = Inr r) \<longleftrightarrow> (\<exists>r. pz_step G SVD dt display2 e d = Inr r)"
  unfolding pz_step_cases by blast


lemma G_diagonal_svd:
  "svd_diagonal (Matrix 2 [[2, 0], [0, s]])
     = Inr (Matrix 2 [[1, 0], [0, 1]], [2, s], Matrix 2 [[1, 0], [0, 1]])"
  by (simp add: svd_diagonal_def eye_def tabulate_def nrows_def upt_2)

lemma pz_step_diagonal:
  "pz_step G_diagonal svd_diagonal dt display_type e d =
     (case py_column (Matrix 2 [[1, 0], [0, 1]]) dt of
        Inl err \<Rightarrow> Inl err
      | Inr u \<Rightarrow> Inr (pz_entry display_type d u u))"
  by (simp add: pz_step_def G_diagonal_def G_diagonal_svd split: sum.splits)

lemma directions_example_z:
  "pole_zero_directions G_diagonal svd_diagonal [0] ''z'' ''a'' e = Inr [AllData 0 [0, 1] [0, 1]]"
  by (simp add: pole_zero_directions_eq pz_step_diagonal py_column_def column_def pz_entry_def)

lemma directions_example_p:
  "pole_zero_directions G_diagonal svd_diagonal [0] ''p'' ''a'' e = Inr [AllData 0 [1, 0] [1, 0]]"
  by (simp add: pole_zero_directions_eq pz_step_diagonal py_column_def column_def pz_entry_def)


lemma traverse_pz_step_display:
  assumes "traverse (pz_step G SVD dt display_type e) vec = Inr r"
  shows "\<exists>us ys. length us = length vec \<and> length ys = length vec \<and>
    (\<forall>display'. traverse (pz_step G SVD dt display' e) vec
        = Inr (map (\<lambda>i. pz_entry display' (vec ! i) (us ! i) (ys ! i)) [0..<length vec]))"
  using assms
proof (induction vec arbitrary: r)
  case Nil
  show ?case by simp
next
  case (Cons d ds)
  from Cons.prems obtain r0 rs where
    r0: "pz_step G SVD dt display_type e d = Inr r0"
    and rs: "traverse (pz_step G SVD dt display_type e) ds = Inr rs"
    by (auto split: sum.splits)
  from Cons.IH [OF rs] obtain us ys where
    l: "length us = length ds" "length ys = length ds"
    and t: "\<And>display'. traverse (pz_step G SVD dt display' e) ds
        = Inr (map (\<lambda>i. pz_entry display' (ds ! i) (us ! i) (ys ! i)) [0..<length ds])"
    by blast
  from r0 obtain g U S V u y where
    "G (d + e) = Inr g" "SVD g = Inr (U, S, V)" "py_column V dt = Inr u" "py_column U dt = Inr y"
    unfolding pz_step_cases by blast
  then have s: "pz_step G SVD dt display' e d = Inr (pz_entry display' d u y)" for display'
    unfolding pz_step_cases by blast
  have "traverse (pz_step G SVD dt display' e) (d # ds)
        = Inr (map (\<lambda>i. pz_entry display' ((d # ds) ! i) ((u # us) ! i) ((y # ys) ! i))
                 [0..<length (d # ds)])" for display'
    by (simp add: s t map_upt_Suc del: upt_Suc)
  then show ?case using l
    by (intro exI [of _ "u # us"] exI [of _ "y # ys"]) simp
qed

text \<open>
  Claim C6. When \<open>pole_zero_directions\<close> returns for a list of \<open>k\<close> locations, it
  returns for every display type, and there are \<open>k\<close> input directions and \<open>k\<close> output
  directions such that, whatever the display type, the result has exactly \<open>k\<close> entries
  and its \<open>i\<close>-th entry is the one for the \<open>i\<close>-th location: the display type changes
  only what each entry shows of the location and its two directions.
\<close>

theorem pole_zero_directions_length_order:
  assumes "pole_zero_directions G SVD vec dir_type display_type e = Inr pz_dir"
  shows "length pz_dir = length vec \<and>
    (\<exists>us ys. length us = length vec \<and> length ys = length vec \<and>
       (\<forall>display'. \<exists>pz_dir'.
          pole_zero_directions G SVD vec dir_type display' e = Inr pz_dir' \<and>
          length pz_dir' = length vec \<and>
          (\<forall>i<length vec. pz_dir' ! i = pz_entry display' (vec ! i) (us ! i) (ys ! i))))"
proof -
  have "length pz_dir = length vec"
    using assms unfolding pole_zero_directions_eq by (rule traverse_length)
  moreover from traverse_pz_step_display [OF assms [unfolded pole_zero_directions_eq]]
  obtain us ys where "length us = length vec" "length ys = length vec"
    and "\<And>display'. pole_zero_directions G SVD vec dir_type display' e
        = Inr (map (\<lambda>i. pz_entry display' (vec ! i) (us ! i) (ys ! i)) [0..<length vec])"
    unfolding pole_zero_directions_eq by blast
  ultimately show ?thesis
    by (intro conjI exI [of _ us] exI [of _ ys]) simp_all
qed

lemma directions_example_two:
  "pole_zero_directions G_diagonal svd_diagonal [0, 1] ''z'' ''y'' e
     = Inr [OutputDirection [0, 1], OutputDirection [0, 1]]"
  by (simp add: pole_zero_directions_eq pz_step_diagonal py_column_def column_def pz_entry_def)

theorem pole_zero_directions_length_order_witness:
  "\<exists>pz_dir'. pole_zero_directions G_diagonal svd_diagonal [0, 1] ''z'' ''a'' 1 = Inr pz_dir' \<and>
     length pz_dir' = 2"
proof -
  from pole_zero_directions_length_order [OF directions_example_two [of 1]]
  obtain us ys :: "complex list list" where
    "\<forall>display'. \<exists>pz_dir'.
       pole_zero_directions G_diagonal svd_diagonal [0, 1] ''z'' display' 1 = Inr pz_dir' \<and>
       length pz_dir' = length [0, 1 :: complex] \<and>
       (\<forall>i<length [0, 1 :: complex]. pz_dir' ! i = pz_entry display' ([0, 1] ! i) (us ! i) (ys ! i))"
    by blast
  then obtain pz_dir' where
    "pole_zero_directions G_diagonal svd_diagonal [0, 1] ''z'' ''a'' 1 = Inr pz_dir'"
    "length pz_dir' = length [0, 1 :: complex]"
    by blast
  then show ?thesis by simp
qed

lemma pz_step_G_fails:
  "G (d + e) = Inl err \<Longrightarrow> pz_step G SVD dt display_type e d = Inl err"
  by (simp add: pz_step_def)

lemma pz_step_cong:
  "G' (d + e) = G (d + e) \<Longrightarrow> pz_step G' SVD dt display_type e d = pz_step G SVD dt display_type e d"
  by (simp add: pz_step_def)

lemma pz_step_ok:
  "G (d + e) = Inr g \<Longrightarrow> SVD g = Inr (U, S, V) \<Longrightarrow> 0 < ncols U \<Longrightarrow> 0 < ncols V \<Longrightarrow>
   dt = 0 \<or> dt = - 1 \<Longrightarrow> \<exists>r. pz_step G SVD dt display_type e d = Inr r"
  unfolding pz_step_cases by (auto simp: py_column_first py_column_last)

text \<open>
  Claim C10. For a direction type other than \<open>'p'\<close>, valid or not,
  \<open>pole_zero_directions\<close> behaves as for \<open>'z'\<close>, whatever epsilon is supplied: the call
  returns whenever \<open>G\<close> and the SVD provider return at every location itself and the
  factors have a column, and each entry is then built from the last column of \<open>V\<close>
  and the last column of \<open>U\<close>, for \<open>G\<close> evaluated at the location with no offset. The
  direction type itself is never the cause of an error.
\<close>

theorem pole_zero_directions_other_dir_type:
  fixes vec :: "'s::monoid_add list"
  assumes "dir_type \<noteq> ''p''"
  shows "pole_zero_directions G SVD vec dir_type display_type e
           = pole_zero_directions G SVD vec ''z'' display_type e' \<and>
    ((\<forall>d\<in>set vec. \<exists>g U S V. G d = Inr g \<and> SVD g = Inr (U, S, V) \<and> 0 < ncols U \<and> 0 < ncols V)
       \<longrightarrow> (\<exists>pz_dir. pole_zero_directions G SVD vec dir_type display_type e = Inr pz_dir)) \<and>
    (\<forall>pz_dir. pole_zero_directions G SVD vec dir_type display_type e = Inr pz_dir \<longrightarrow>
       (\<forall>i<length vec. \<exists>g U S V.
          G (vec ! i) = Inr g \<and> SVD g = Inr (U, S, V) \<and> 0 < ncols V \<and> 0 < ncols U \<and>
          pz_dir ! i = pz_entry display_type (vec ! i)
                         (column V (ncols V - 1)) (column U (ncols U - 1))))"
proof (intro conjI allI impI)
  show "pole_zero_directions G SVD vec dir_type display_type e
           = pole_zero_directions G SVD vec ''z'' display_type e'"
    using assms by (simp add: pole_zero_directions_eq)
next
  assume ok: "\<forall>d\<in>set vec. \<exists>g U S V. G d = Inr g \<and> SVD g = Inr (U, S, V) \<and> 0 < ncols U \<and> 0 < ncols V"
  have "\<exists>ys. traverse (pz_step G SVD (- 1) display_type 0) vec = Inr ys"
  proof (rule traverse_all_ok)
    fix d assume "d \<in> set vec"
    with ok obtain g U S V where "G (d + 0) = Inr g" "SVD g = Inr (U, S, V)"
      "0 < ncols U" "0 < ncols V"
      by fastforce
    then show "\<exists>y. pz_step G SVD (- 1) display_type 0 d = Inr y"
      by (rule pz_step_ok) simp
  qed
  then show "\<exists>pz_dir. pole_zero_directions G SVD vec dir_type display_type e = Inr pz_dir"
    using assms by (simp add: pole_zero_directions_eq)
next
  fix pz_dir i
  assume r: "pole_zero_directions G SVD vec dir_type display_type e = Inr pz_dir"
    and i: "i < length vec"
  have "pz_step G SVD (- 1) display_type 0 (vec ! i) = Inr (pz_dir ! i)"
    using r i assms by (simp add: pole_zero_directions_eq traverse_nth)
  then obtain g U S V u y where
    "G (vec ! i + 0) = Inr g" "SVD g = Inr (U, S, V)"
    "py_column V (- 1) = Inr u" "py_column U (- 1) = Inr y"
    "pz_dir ! i = pz_entry display_type (vec ! i) u y"
    unfolding pz_step_cases by blast
  then show "\<exists>g U S V.
          G (vec ! i) = Inr g \<and> SVD g = Inr (U, S, V) \<and> 0 < ncols V \<and> 0 < ncols U \<and>
          pz_dir ! i = pz_entry display_type (vec ! i)
                         (column V (ncols V - 1)) (column U (ncols U - 1))"
    by (auto simp: py_column_last split: if_splits)
qed

theorem pole_zero_directions_other_dir_type_witness:
  "pole_zero_directions G_diagonal svd_diagonal [0] ''x'' ''a'' 1
     = Inr [AllData 0 [0, 1] [0, 1]] \<and>
   pole_zero_directions G_diagonal svd_diagonal [0] ''zero'' ''a'' 1
     = Inr [AllData 0 [0, 1] [0, 1]]"
proof -
  have x: "''x'' \<noteq> ''p''" and z: "''zero'' \<noteq> ''p''" by simp_all
  from pole_zero_directions_other_dir_type [OF x, of G_diagonal svd_diagonal "[0]" "''a''" 1 0]
    pole_zero_directions_other_dir_type [OF z, of G_diagonal svd_diagonal "[0]" "''a''" 1 0]
  show ?thesis
    by (simp only: directions_example_z)
qed

lemma traverse_Inr_nth_iff:
  "traverse f xs = Inr ys \<longleftrightarrow>
     length ys = length xs \<and> (\<forall>i<length xs. f (xs ! i) = Inr (ys ! i))"
  by (auto simp: traverse_eq_Inr_iff list_all2_conv_all_nth)

lemma pz_step_first:
  "pz_step G SVD 0 display_type e d = Inr r \<longleftrightarrow>
     (\<exists>g U S V. G (d + e) = Inr g \<and> SVD g = Inr (U, S, V) \<and> 0 < ncols V \<and> 0 < ncols U \<and>
        r = pz_entry display_type d (column V 0) (column U 0))"
  unfolding pz_step_cases by (auto simp: py_column_first split: if_splits)

lemma pz_step_last:
  "pz_step G SVD (- 1) display_type e d = Inr r \<longleftrightarrow>
     (\<exists>g U S V. G (d + e) = Inr g \<and> SVD g = Inr (U, S, V) \<and> 0 < ncols V \<and> 0 < ncols U \<and>
        r = pz_entry display_type d (column V (ncols V - 1)) (column U (ncols U - 1)))"
  unfolding pz_step_cases by (auto simp: py_column_last split: if_splits)

text \<open>
  Claim C4, as amended. With \<open>'z'\<close> the epsilon supplied is ignored and \<open>G\<close> is
  evaluated at each location itself: the call returns exactly when \<open>G\<close> and the SVD
  provider return there with factors that have a column, each entry being built from
  those factors; the outcome depends on \<open>G\<close> only through its values at the locations,
  and a failure of \<open>G\<close> at a location fails the call. With \<open>'p'\<close> the same holds for
  \<open>G\<close> at the sum of each location and epsilon; for epsilon \<open>0\<close> that point is the
  location itself.
\<close>

theorem pole_zero_directions_evaluation_points:
  fixes vec :: "'s::monoid_add list"
  shows "pole_zero_directions G SVD vec ''z'' display_type e
           = pole_zero_directions G SVD vec ''z'' display_type e' \<and>
    (pole_zero_directions G SVD vec ''z'' display_type e = Inr pz_dir \<longleftrightarrow>
       length pz_dir = length vec \<and>
       (\<forall>i<length vec. \<exists>g U S V.
          G (vec ! i) = Inr g \<and> SVD g = Inr (U, S, V) \<and> 0 < ncols V \<and> 0 < ncols U \<and>
          pz_dir ! i = pz_entry display_type (vec ! i)
                         (column V (ncols V - 1)) (column U (ncols U - 1)))) \<and>
    ((\<forall>d\<in>set vec. G' d = G d) \<longrightarrow>
       pole_zero_directions G' SVD vec ''z'' display_type e
         = pole_zero_directions G SVD vec ''z'' display_type e) \<and>
    ((\<exists>d\<in>set vec. \<exists>err. G d = Inl err) \<longrightarrow>
       (\<exists>err. pole_zero_directions G SVD vec ''z'' display_type e = Inl err)) \<and>
    (pole_zero_directions G SVD vec ''p'' display_type e = Inr pz_dir \<longleftrightarrow>
       length pz_dir = length vec \<and>
       (\<forall>i<length vec. \<exists>g U S V.
          G (vec ! i + e) = Inr g \<and> SVD g = Inr (U, S, V) \<and> 0 < ncols V \<and> 0 < ncols U \<and>
          pz_dir ! i = pz_entry display_type (vec ! i) (column V 0) (column U 0))) \<and>
    ((\<forall>d\<in>set vec. G' (d + e) = G (d + e)) \<longrightarrow>
       pole_zero_directions G' SVD vec ''p'' display_type e
         = pole_zero_directions G SVD vec ''p'' display_type e) \<and>
    ((\<exists>d\<in>set vec. \<exists>err. G (d + e) = Inl err) \<longrightarrow>
       (\<exists>err. pole_zero_directions G SVD vec ''p'' display_type e = Inl err)) \<and>
    (pole_zero_directions G SVD vec ''p'' display_type 0 = Inr pz_dir \<longleftrightarrow>
       length pz_dir = length vec \<and>
       (\<forall>i<length vec. \<exists>g U S V.
          G (vec ! i) = Inr g \<and> SVD g = Inr (U, S, V) \<and> 0 < ncols V \<and> 0 < ncols U \<and>
          pz_dir ! i = pz_entry display_type (vec ! i) (column V 0) (column U 0)))"
proof (intro conjI impI)
  show "pole_zero_directions G SVD vec ''z'' display_type e
           = pole_zero_directions G SVD vec ''z'' display_type e'"
    by (simp add: pole_zero_directions_eq)
next
  show "pole_zero_directions G SVD vec ''z'' display_type e = Inr pz_dir \<longleftrightarrow>
       length pz_dir = length vec \<and>
       (\<forall>i<length vec. \<exists>g U S V.
          G (vec ! i) = Inr g \<and> SVD g = Inr (U, S, V) \<and> 0 < ncols V \<and> 0 < ncols U \<and>
          pz_dir ! i = pz_entry display_type (vec ! i)
                         (column V (ncols V - 1)) (column U (ncols U - 1)))"
    by (simp add: pole_zero_directions_eq traverse_Inr_nth_iff pz_step_last)
next
  assume "\<forall>d\<in>set vec. G' d = G d"
  then have "traverse (pz_step G' SVD (- 1) display_type 0) vec
        = traverse (pz_step G SVD (- 1) display_type 0) vec"
    by (intro traverse_cong pz_step_cong) simp
  then show "pole_zero_directions G' SVD vec ''z'' display_type e
         = pole_zero_directions G SVD vec ''z'' display_type e"
    by (simp add: pole_zero_directions_eq)
next
  assume "\<exists>d\<in>set vec. \<exists>err. G d = Inl err"
  then obtain d err where d: "d \<in> set vec" and g: "G (d + 0) = Inl err" by auto
  have "pz_step G SVD (- 1) display_type 0 d = Inl err"
    using g by (rule pz_step_G_fails)
  with d have "\<exists>err. traverse (pz_step G SVD (- 1) display_type 0) vec = Inl err"
    by (rule traverse_fails [where f = "pz_step G SVD (- 1) display_type 0"])
  then show "\<exists>err. pole_zero_directions G SVD vec ''z'' display_type e = Inl err"
    by (simp add: pole_zero_directions_eq)
next
  show "pole_zero_directions G SVD vec ''p'' display_type e = Inr pz_dir \<longleftrightarrow>
       length pz_dir = length vec \<and>
       (\<forall>i<length vec. \<exists>g U S V.
          G (vec ! i + e) = Inr g \<and> SVD g = Inr (U, S, V) \<and> 0 < ncols V \<and> 0 < ncols U \<and>
          pz_dir ! i = pz_entry display_type (vec ! i) (column V 0) (column U 0))"
    by (simp add: pole_zero_directions_eq traverse_Inr_nth_iff pz_step_first)
next
  assume "\<forall>d\<in>set vec. G' (d + e) = G (d + e)"
  then have "traverse (pz_step G' SVD 0 display_type e) vec
        = traverse (pz_step G SVD 0 display_type e) vec"
    by (intro traverse_cong pz_step_cong) simp
  then show "pole_zero_directions G' SVD vec ''p'' display_type e
         = pole_zero_directions G SVD vec ''p'' display_type e"
    by (simp add: pole_zero_directions_eq)
next
  assume "\<exists>d\<in>set vec. \<exists>err. G (d + e) = Inl err"
  then obtain d err where d: "d \<in> set vec" and g: "G (d + e) = Inl err" by auto
  have "pz_step G SVD 0 display_type e d = Inl err"
    using g by (rule pz_step_G_fails)
  with d have "\<exists>err. traverse (pz_step G SVD 0 display_type e) vec = Inl err"
    by (rule traverse_fails [where f = "pz_step G SVD 0 display_type e"])
  then show "\<exists>err. pole_zero_directions G SVD vec ''p'' display_type e = Inl err"
    by (simp add: pole_zero_directions_eq)
next
  show "pole_zero_directions G SVD vec ''p'' display_type 0 = Inr pz_dir \<longleftrightarrow>
       length pz_dir = length vec \<and>
       (\<forall>i<length vec. \<exists>g U S V.
          G (vec ! i) = Inr g \<and> SVD g = Inr (U, S, V) \<and> 0 < ncols V \<and> 0 < ncols U \<and>
          pz_dir ! i = pz_entry display_type (vec ! i) (column V 0) (column U 0))"
    by (simp add: pole_zero_directions_eq traverse_Inr_nth_iff pz_step_first)
qed

lemma mvnyquist_G_pole: "mvnyquist_G 1 = Inl ZeroDivisionError"
  by (simp add: mvnyquist_G_def)

text \<open>
  At the pole \<open>1\<close> of the transfer function of \<open>mvnyquist\<close>, with \<open>'p'\<close> and epsilon
  \<open>0\<close>, the division by zero of \<open>G\<close> at the location itself ends the call; replacing
  the value of \<open>G\<close> at the location alone changes the outcome.
\<close>

theorem pole_zero_directions_evaluation_points_counterexample:
  "pole_zero_directions mvnyquist_G svd_diagonal [1] ''p'' ''a'' 0 = Inl ZeroDivisionError \<and>
   pole_zero_directions (mvnyquist_G (1 := G_diagonal 1)) svd_diagonal [1] ''p'' ''a'' 0
     = Inr [AllData 1 [1, 0] [1, 0]]"
  by (simp add: pole_zero_directions_eq pz_step_def mvnyquist_G_pole G_diagonal_def
      G_diagonal_svd py_column_def column_def pz_entry_def)

lemma G_pole_svd:
  "G_pole (1 / 2) = Inr (Matrix 2 [[2, 0], [0, 0]])"
  "svd_diagonal (Matrix 2 [[2, 0], [0, 0]])
     = Inr (Matrix 2 [[1, 0], [0, 1]], [2, 0], Matrix 2 [[1, 0], [0, 1]])"
  by (simp_all add: G_pole_def G_diagonal_svd)

theorem pole_zero_directions_evaluation_points_witness:
  "pole_zero_directions G_pole svd_diagonal [0] ''p'' ''a'' (1 / 2)
     = Inr [AllData 0 [1, 0] [1, 0]] \<and>
   (\<exists>err. pole_zero_directions G_pole svd_diagonal [0] ''z'' ''a'' (1 / 2) = Inl err) \<and>
   (\<exists>err. pole_zero_directions G_pole svd_diagonal [0] ''p'' ''a'' 0 = Inl err) \<and>
   pole_zero_directions G_pole svd_diagonal [1 / 2] ''z'' ''a'' 7
     = Inr [AllData (1 / 2) [0, 1] [0, 1]]"
proof -
  note t = pole_zero_directions_evaluation_points
  have a: "pole_zero_directions G_pole svd_diagonal [0] ''p'' ''a'' (1 / 2)
     = Inr [AllData 0 [1, 0] [1, 0]]"
    using t [of G_pole svd_diagonal "[0]" "''a''" "1 / 2" _ "[AllData 0 [1, 0] [1, 0]]"]
    by (simp add: G_pole_svd pz_entry_def column_def)
  have "\<exists>d\<in>set [0]. \<exists>err. G_pole d = Inl err"
    by (simp add: G_pole_def)
  with t [of G_pole svd_diagonal "[0]" "''a''" "1 / 2"]
  have b: "\<exists>err. pole_zero_directions G_pole svd_diagonal [0] ''z'' ''a'' (1 / 2) = Inl err"
    by blast
  have "\<exists>d\<in>set [0]. \<exists>err. G_pole (d + 0) = Inl err"
    by (simp add: G_pole_def)
  with t [of G_pole svd_diagonal "[0]" "''a''" 0]
  have c: "\<exists>err. pole_zero_directions G_pole svd_diagonal [0] ''p'' ''a'' 0 = Inl err"
    by blast
  have d: "pole_zero_directions G_pole svd_diagonal [1 / 2] ''z'' ''a'' 7
     = Inr [AllData (1 / 2) [0, 1] [0, 1]]"
    using t [of G_pole svd_diagonal "[1 / 2]" "''a''" 7 _ "[AllData (1 / 2) [0, 1] [0, 1]]"]
    by (simp add: G_pole_svd pz_entry_def column_def)
  from a b c d show ?thesis by blast
qed

section \<open>Properties of the zero solver\<close>

lemma nrows_block_matrix:
  "nrows Q = nrows P \<Longrightarrow> nrows S = nrows R \<Longrightarrow> nrows (block_matrix P Q R S) = nrows P + nrows R"
  by (simp add: block_matrix_def nrows_def length_hjoin)

lemma ncols_block_matrix [simp]: "ncols (block_matrix P Q R S) = ncols P + ncols Q"
  by (simp add: block_matrix_def)

lemma block_matrix_row:
  assumes "nrows Q = nrows P" and "nrows S = nrows R" and "i < nrows P + nrows R"
  shows "rows (block_matrix P Q R S) ! i =
    (if i < nrows P then rows P ! i @ rows Q ! i
     else rows R ! (i - nrows P) @ rows S ! (i - nrows P))"
  using assms by (auto simp: block_matrix_def nth_append length_hjoin nth_hjoin nrows_def)

lemma block_matrix_row_length:
  assumes "wf_matrix P" "wf_matrix Q" "wf_matrix R" "wf_matrix S"
    and "nrows Q = nrows P" and "nrows S = nrows R"
    and "ncols R + ncols S = ncols P + ncols Q" and "i < nrows P + nrows R"
  shows "length (rows (block_matrix P Q R S) ! i) = ncols P + ncols Q"
  using assms by (auto simp: block_matrix_row wf_row_length)

lemma block_matrix_nth:
  assumes "wf_matrix P" "wf_matrix R"
    and "nrows Q = nrows P" and "nrows S = nrows R" and "i < nrows P + nrows R"
  shows "rows (block_matrix P Q R S) ! i ! j = block_entry P Q R S i j"
  using assms by (auto simp: block_matrix_row block_entry_def nth_append wf_row_length)

lemma Ig_blocks_nth:
  assumes "nrows B = nrows A" and "nrows D = nrows C"
    and "ncols C + ncols D = nrows A + ncols B"
    and "i < nrows A + nrows C" and "j < nrows A + ncols B"
  shows "rows (Ig_blocks A B C D) ! i ! j = (if i = j \<and> i < nrows A then 1 else 0)"
proof -
  have "rows (Ig_blocks A B C D) ! i ! j
        = block_entry (eye (nrows A)) (zeros (nrows B) (ncols B))
            (zeros (nrows C) (ncols C)) (zeros (nrows D) (ncols D)) i j"
    unfolding Ig_blocks_def using assms by (intro block_matrix_nth) simp_all
  also have "\<dots> = (if i = j \<and> i < nrows A then 1 else 0)"
    using assms by (auto simp: block_entry_def eye_nth zeros_nth)
  finally show ?thesis .
qed

lemma nrows_Ig_blocks:
  "nrows B = nrows A \<Longrightarrow> nrows D = nrows C
   \<Longrightarrow> nrows (Ig_blocks A B C D) = nrows A + nrows C"
  by (simp add: Ig_blocks_def nrows_block_matrix)

lemma ncols_Ig_blocks [simp]: "ncols (Ig_blocks A B C D) = nrows A + ncols B"
  by (simp add: Ig_blocks_def)

lemma pencil_nth:
  assumes wf: "wf_matrix A" "wf_matrix B" "wf_matrix C" "wf_matrix D"
    and sh: "nrows A = ncols A" "nrows B = nrows A" "nrows D = nrows C"
      "ncols C + ncols D = ncols A + ncols B"
    and i: "i < nrows A + nrows C" and j: "j < ncols A + ncols B"
  shows "rows (pencil A B C D) ! i ! j =
    Entry (if i = j \<and> i < nrows A then 1 else 0 :: 'f::{zero,one}) (block_entry A B C D i j)"
proof -
  let ?M = "block_matrix A B C D" and ?I = "Ig_blocks A B C D :: 'f::{zero,one} matrix"
  have "nrows ?M = nrows A + nrows C"
    using sh by (simp add: nrows_block_matrix)
  then have nM: "length (rows ?M) = nrows A + nrows C"
    by (simp only: nrows_def)
  have "nrows ?I = nrows A + nrows C"
    using sh by (simp add: nrows_Ig_blocks)
  then have nI: "length (rows ?I) = nrows A + nrows C"
    by (simp only: nrows_def)
  have lM: "length (rows ?M ! i) = ncols A + ncols B"
    using wf sh i by (intro block_matrix_row_length) simp_all
  have lI: "length (rows ?I ! i) = ncols A + ncols B"
    unfolding Ig_blocks_def
    using block_matrix_row_length [of "eye (nrows A)" "zeros (nrows B) (ncols B)"
        "zeros (nrows C) (ncols C)" "zeros (nrows D) (ncols D)" i] sh i
    by simp
  have "rows (pencil A B C D) ! i ! j = Entry (rows ?I ! i ! j) (rows ?M ! i ! j)"
    using i j nM nI lM lI by (simp add: pencil_def)
  also have "rows ?M ! i ! j = block_entry A B C D i j"
    using wf sh i by (intro block_matrix_nth) simp_all
  also have "rows ?I ! i ! j = (if i = j \<and> i < nrows A then 1 else 0)"
    using sh i j by (intro Ig_blocks_nth) simp_all
  finally show ?thesis .
qed

lemma pencil_sub_blocks:
  assumes "nrows B = nrows A" "nrows D = nrows C" "nrows A = ncols A"
  shows "pencil_sub (Ig_blocks A B C D) (block_matrix A B C D) = Inr (pencil A B C D)"
  using assms by (simp add: pencil_sub_def shape_def pencil_def nrows_Ig_blocks nrows_block_matrix)

lemma nrows_pencil:
  assumes "nrows B = nrows A" "nrows D = nrows C"
  shows "nrows (pencil A B C D :: ('f::{zero,one}, 'a) entry matrix) = nrows A + nrows C"
proof -
  have "length (rows (block_matrix A B C D)) = nrows A + nrows C"
    using nrows_block_matrix [of B A D C] assms by (simp only: nrows_def)
  moreover have "nrows (Ig_blocks A B C D :: 'f matrix) = nrows A + nrows C"
    using assms by (simp add: nrows_Ig_blocks)
  then have "length (rows (Ig_blocks A B C D :: 'f matrix)) = nrows A + nrows C"
    by (simp only: nrows_def)
  ultimately show ?thesis
    by (simp add: pencil_def nrows_def)
qed

lemma ncols_pencil [simp]: "ncols (pencil A B C D) = nrows A + ncols B"
  by (simp add: pencil_def)

lemma pencil_det:
  assumes "nrows B = nrows A" "nrows D = nrows C"
  shows "det sp (pencil A B C D) =
    (if nrows C \<noteq> ncols B then Inl NonSquareMatrixError
     else Inr (sp_det sp (pencil A B C D)))"
  using assms by (simp add: det_def nrows_pencil)

lemma zero_eq:
  fixes sp :: "('f::{zero,one}, 'a, 'e, 'r) sympy"
  shows "zero sp A B C D =
     (if nrows B \<noteq> nrows A \<or> nrows D \<noteq> nrows C \<or> ncols C + ncols D \<noteq> ncols A + ncols B
         \<or> nrows A \<noteq> ncols A
      then Inl ValueError
      else if nrows C \<noteq> ncols B then Inl NonSquareMatrixError
      else sp_solve sp (sp_det sp (pencil A B C D)))"
proof -
  consider (bad) "nrows B \<noteq> nrows A \<or> nrows D \<noteq> nrows C \<or> ncols C + ncols D \<noteq> ncols A + ncols B"
    | (nonsq) "nrows B = nrows A" "nrows D = nrows C" "ncols C + ncols D = ncols A + ncols B"
        "nrows A \<noteq> ncols A"
    | (ok) "nrows B = nrows A" "nrows D = nrows C" "ncols C + ncols D = ncols A + ncols B"
        "nrows A = ncols A"
    by blast
  then show ?thesis
  proof cases
    case bad
    then show ?thesis by (auto simp: zero_def blocks_eq)
  next
    case nonsq
    then show ?thesis by (simp add: zero_def blocks_eq Let_def)
  next
    case ok
    have m: "pencil_sub (Ig_blocks A B C D :: 'f matrix) (block_matrix A B C D)
             = Inr (pencil A B C D)"
      using ok by (intro pencil_sub_blocks) simp_all
    have d: "det sp (pencil A B C D) =
      (if nrows C \<noteq> ncols B then Inl NonSquareMatrixError
       else Inr (sp_det sp (pencil A B C D)))"
      using ok by (intro pencil_det) simp_all
    have b: "blocks (eye (nrows A)) (zeros (nrows B) (ncols B)) (zeros (nrows C) (ncols C))
               (zeros (nrows D) (ncols D)) = Inr (Ig_blocks A B C D :: 'f matrix)"
      using ok by (simp add: blocks_eq Ig_blocks_def)
    show ?thesis
      using ok m d b by (simp add: zero_def blocks_eq Let_def)
  qed
qed

text \<open>
  Claim C3, as amended. For \<open>A\<close> of shape \<open>n \<times> n\<close>, \<open>B\<close> of shape \<open>n \<times> m\<close>, \<open>C\<close> of
  shape \<open>m \<times> n\<close> and \<open>D\<close> of shape \<open>m \<times> m\<close> (as many outputs as inputs), \<open>zero\<close>
  forms the block matrix \<open>M = [[A, B], [C, D]]\<close> and the block matrix \<open>Ig\<close> with the
  identity of size \<open>n\<close> in the top left corner and zeros elsewhere, builds
  \<open>f = z Ig - M\<close>, whose entry at \<open>(i, j)\<close> is \<open>Ig\<^sub>i\<^sub>j z - M\<^sub>i\<^sub>j\<close>, and returns, unchanged
  and unfiltered, what the symbolic solver returns for the determinant that the
  symbolic library computes of \<open>f\<close>, be it a list or an error of the solver. The
  entries of \<open>Ig\<close> are the library's doubles, those of \<open>M\<close> the caller's.
\<close>

theorem zero_roots_of_pencil_determinant:
  fixes A :: "'a matrix" and sp :: "('f::{zero,one}, 'a, 'e, 'r) sympy"
  assumes "wf_matrix A" "wf_matrix B" "wf_matrix C" "wf_matrix D"
    and "nrows A = ncols A" and "nrows B = ncols A"
    and "ncols C = ncols A" and "nrows D = nrows C" and "ncols D = ncols B"
    and "nrows C = ncols B"
  shows "let M = block_matrix A B C D; Ig = Ig_blocks A B C D; f = pencil A B C D in
    blocks A B C D = Inr M \<and>
    blocks (eye (nrows A)) (zeros (nrows B) (ncols B))
      (zeros (nrows C) (ncols C)) (zeros (nrows D) (ncols D)) = Inr Ig \<and>
    pencil_sub Ig M = Inr f \<and>
    shape M = (ncols A + ncols B, ncols A + ncols B) \<and>
    shape Ig = (ncols A + ncols B, ncols A + ncols B) \<and>
    shape f = (ncols A + ncols B, ncols A + ncols B) \<and>
    (\<forall>i<ncols A + ncols B. \<forall>j<ncols A + ncols B.
       rows M ! i ! j = block_entry A B C D i j \<and>
       rows Ig ! i ! j = (if i = j \<and> i < ncols A then 1 else 0) \<and>
       rows f ! i ! j = Entry (rows Ig ! i ! j) (rows M ! i ! j)) \<and>
    det sp f = Inr (sp_det sp f) \<and>
    zero sp A B C D = sp_solve sp (sp_det sp f)"
proof -
  let ?M = "block_matrix A B C D"
  let ?Ig = "Ig_blocks A B C D :: 'f matrix"
  let ?f = "pencil A B C D :: ('f, 'a) entry matrix"
  note sh = assms(5-10)
  have b1: "blocks A B C D = Inr ?M"
    using sh by (simp add: blocks_eq)
  have b2: "blocks (eye (nrows A)) (zeros (nrows B) (ncols B))
      (zeros (nrows C) (ncols C)) (zeros (nrows D) (ncols D)) = Inr ?Ig"
    using sh by (simp add: blocks_eq Ig_blocks_def)
  have m: "pencil_sub ?Ig ?M = Inr ?f"
    using sh by (intro pencil_sub_blocks) simp_all
  have s1: "shape ?M = (ncols A + ncols B, ncols A + ncols B)"
    using sh by (simp add: shape_def nrows_block_matrix)
  have s2: "shape ?Ig = (ncols A + ncols B, ncols A + ncols B)"
    using sh by (simp add: shape_def nrows_Ig_blocks)
  have s3: "shape ?f = (ncols A + ncols B, ncols A + ncols B)"
    using sh by (simp add: shape_def nrows_pencil)
  have e: "rows ?M ! i ! j = block_entry A B C D i j \<and>
       rows ?Ig ! i ! j = (if i = j \<and> i < ncols A then 1 else 0) \<and>
       rows ?f ! i ! j = Entry (rows ?Ig ! i ! j) (rows ?M ! i ! j)"
    if "i < ncols A + ncols B" "j < ncols A + ncols B" for i j
  proof -
    have 1: "rows ?M ! i ! j = block_entry A B C D i j"
      using assms that by (intro block_matrix_nth) simp_all
    have 2: "rows ?Ig ! i ! j = (if i = j \<and> i < ncols A then 1 else 0)"
      using Ig_blocks_nth [of B A D C i j] sh that by simp
    have 3: "rows ?f ! i ! j
         = Entry (if i = j \<and> i < ncols A then 1 else 0) (block_entry A B C D i j)"
      using pencil_nth [of A B C D i j] assms that by simp
    from 1 2 3 show ?thesis by simp
  qed
  have d: "det sp ?f = Inr (sp_det sp ?f)"
    using pencil_det [of B A D C sp] sh by simp
  have z: "zero sp A B C D = sp_solve sp (sp_det sp ?f)"
    using sh by (simp add: zero_eq)
  from b1 b2 m s1 s2 s3 e d z show ?thesis
    unfolding Let_def by simp
qed

lemma replicate_2: "replicate 2 x = [x, x]"
  by (simp add: numeral_2_eq_2)

lemma pencil_degenerate_example:
  "pencil (Matrix 1 [[1]]) (Matrix 1 [[0]]) (Matrix 1 [[0]]) (Matrix 1 [[0 :: complex]])
     = Matrix 2 [[Entry 1 1, Entry 0 0], [Entry 0 0, Entry 0 0]]"
  by (simp add: pencil_def Ig_blocks_def block_matrix_def eye_def tabulate_def zeros_def
      nrows_def)

lemma det_degenerate_example:
  "det_exact (Matrix 2 [[Entry 1 1, Entry 0 0], [Entry 0 0, Entry 0 (0 :: complex)]])
     = [0, 0, 0]"
  by (simp add: det_exact_def nrows_def map_matrix_def entry_poly_def numeral_2_eq_2
      minor_rows_def)

text \<open>
  A system with one state, two inputs and one output has conformable shapes, yet the
  determinant of its \<open>2 \<times> 3\<close> pencil is refused. And for \<open>A = [[1]]\<close> with \<open>B\<close>, \<open>C\<close>
  and \<open>D\<close> zero the determinant is the zero polynomial, of which every number is a
  root, while the solver and hence \<open>zero\<close> return the empty list.
\<close>

theorem zero_roots_of_pencil_determinant_counterexample:
  "zero sympy_exact (Matrix 1 [[- 1]]) (Matrix 2 [[1, 1]]) (Matrix 1 [[1]]) (Matrix 2 [[0, 0]])
     = Inl NonSquareMatrixError \<and>
   zero sympy_exact (Matrix 1 [[1]]) (Matrix 1 [[0]]) (Matrix 1 [[0]]) (Matrix 1 [[0]])
     = Inr [] \<and>
   sp_det sympy_exact
     (pencil (Matrix 1 [[1]]) (Matrix 1 [[0]]) (Matrix 1 [[0]]) (Matrix 1 [[0]]))
     = [0, 0, 0] \<and>
   (\<forall>z. peval [0, 0, 0 :: complex] z = 0)"
proof -
  have a: "zero sympy_exact (Matrix 1 [[- 1]]) (Matrix 2 [[1, 1]]) (Matrix 1 [[1]])
      (Matrix 2 [[0, 0]]) = Inl NonSquareMatrixError"
    by (simp add: zero_eq nrows_def)
  have d: "sp_det sympy_exact
     (pencil (Matrix 1 [[1]]) (Matrix 1 [[0]]) (Matrix 1 [[0]]) (Matrix 1 [[0]]))
     = [0, 0, 0]"
    unfolding pencil_degenerate_example
    by (simp add: sympy_exact_def det_degenerate_example)
  have "zero sympy_exact (Matrix 1 [[1]]) (Matrix 1 [[0]]) (Matrix 1 [[0]]) (Matrix 1 [[0]])
     = sp_solve sympy_exact (sp_det sympy_exact
         (pencil (Matrix 1 [[1]]) (Matrix 1 [[0]]) (Matrix 1 [[0]]) (Matrix 1 [[0]])))"
    by (simp add: zero_eq nrows_def)
  then have b: "zero sympy_exact (Matrix 1 [[1]]) (Matrix 1 [[0]]) (Matrix 1 [[0]])
      (Matrix 1 [[0]]) = Inr []"
    unfolding d by (simp add: sympy_exact_def solve_linear_def)
  from a b d show ?thesis by simp
qed

lemma pencil_example:
  "pencil (Matrix 2 [[0, 1], [- 2, - 3]]) (Matrix 1 [[0], [1]])
           (Matrix 2 [[- 1, 1]]) (Matrix 1 [[0 :: complex]])
     = Matrix 3 [[Entry 1 0, Entry 0 1, Entry 0 0],
                 [Entry 0 (- 2), Entry 1 (- 3), Entry 0 1],
                 [Entry 0 (- 1), Entry 0 1, Entry 0 0]]"
  by (simp add: pencil_def Ig_blocks_def block_matrix_def eye_def tabulate_def zeros_def
      nrows_def upt_2 replicate_2)

lemma det_example:
  "det_exact (Matrix 3 [[Entry 1 0, Entry 0 1, Entry 0 0],
                 [Entry 0 (- 2), Entry 1 (- 3), Entry 0 1],
                 [Entry 0 (- 1), Entry 0 1, Entry 0 (0 :: complex)]]) = [1, - 1, 0, 0]"
  by (simp add: det_exact_def nrows_def map_matrix_def entry_poly_def numeral_3_eq_3
      minor_rows_def)

theorem zero_roots_of_pencil_determinant_witness:
  "zero sympy_exact (Matrix 2 [[0, 1], [- 2, - 3]]) (Matrix 1 [[0], [1]])
     (Matrix 2 [[- 1, 1]]) (Matrix 1 [[0]]) = Inr [1] \<and>
   sp_det sympy_exact (pencil (Matrix 2 [[0, 1], [- 2, - 3]]) (Matrix 1 [[0], [1]])
     (Matrix 2 [[- 1, 1]]) (Matrix 1 [[0]])) = [1, - 1, 0, 0]"
proof -
  let ?A = "Matrix 2 [[0, 1], [- 2, - 3 :: complex]]" and ?B = "Matrix 1 [[0], [1 :: complex]]"
  let ?C = "Matrix 2 [[- 1, 1 :: complex]]" and ?D = "Matrix 1 [[0 :: complex]]"
  have zf: "sp_det sympy_exact (pencil ?A ?B ?C ?D) = [1, - 1, 0, 0]"
    unfolding pencil_example by (simp add: sympy_exact_def det_example)
  have s: "sp_solve sympy_exact [1, - 1, 0, 0] = Inr [1]"
    by (simp add: sympy_exact_def solve_linear_def)
  from zero_roots_of_pencil_determinant [of ?A ?B ?C ?D sympy_exact]
  have "zero sympy_exact ?A ?B ?C ?D
        = sp_solve sympy_exact (sp_det sympy_exact (pencil ?A ?B ?C ?D))"
    by (simp add: wf_matrix_def nrows_def Let_def)
  with zf s show ?thesis by simp
qed

section \<open>Shape mismatches\<close>

lemma state_controllability_eig_fails:
  "np_eig np A True False = Inl err \<Longrightarrow> state_controllability np A B = Inl err"
  by (simp add: state_controllability_eq)

lemma state_controllability_rows_mismatch:
  assumes "np_eig np A True False = Inr (ev, vl)" and "0 < ncols vl" and "nrows vl \<noteq> nrows B"
  shows "state_controllability np A B = Inl ValueError"
  using assms by (simp add: state_controllability_eq)

text \<open>
  Claim C9, as amended. Neither \<open>state_controllability\<close> nor \<open>zero\<close> checks a shape at
  the start of the call. In \<open>state_controllability\<close> the eigen-decomposition comes
  first: when it fails, its error is the outcome whatever the shape of \<open>B\<close>; when it
  returns at least one eigenvector and the eigenvectors are not as long as \<open>B\<close> has
  rows, the call fails with \<open>ValueError\<close> at the first pole vector, after the
  decomposition; when the eigenvectors are as long as \<open>B\<close> has rows and \<open>A\<close> is square
  of that size, the call returns. \<open>zero\<close> fails with \<open>ValueError\<close> at its concatenations when \<open>A\<close> and
  \<open>B\<close> differ in their rows, \<open>C\<close> and \<open>D\<close> differ in their rows, the two block rows
  differ in their columns, or \<open>A\<close> is not square. Otherwise the determinant is reached,
  which refuses a pencil that is not square, and no other shape is looked at: a
  mismatch that the concatenations accept goes unnoticed.
\<close>

theorem shape_mismatch_detection:
  fixes P :: "'a::{zero,one} matrix"
  shows "(np_eig np A True False = Inl err \<longrightarrow> state_controllability np A B = Inl err) \<and>
    (np_eig np A True False = Inr (ev, vl) \<and> 0 < ncols vl \<and> nrows vl \<noteq> nrows B
       \<longrightarrow> state_controllability np A B = Inl ValueError) \<and>
    (np_eig np A True False = Inr (ev, vl) \<and> nrows vl = nrows B \<and> 0 < ncols A
         \<and> nrows A = ncols A \<and> nrows B = ncols A
       \<longrightarrow> (\<exists>state_control u_p control_matrix.
             state_controllability np A B = Inr (state_control, u_p, control_matrix))) \<and>
    (nrows Q \<noteq> nrows P \<or> nrows S \<noteq> nrows R \<or> ncols R + ncols S \<noteq> ncols P + ncols Q
         \<or> nrows P \<noteq> ncols P
       \<longrightarrow> zero sp P Q R S = Inl ValueError) \<and>
    (\<not> (nrows Q \<noteq> nrows P \<or> nrows S \<noteq> nrows R \<or> ncols R + ncols S \<noteq> ncols P + ncols Q
         \<or> nrows P \<noteq> ncols P)
       \<longrightarrow> zero sp P Q R S =
             (if nrows R \<noteq> ncols Q then Inl NonSquareMatrixError
              else sp_solve sp (sp_det sp (pencil P Q R S))))"
proof (intro conjI impI)
  assume "np_eig np A True False = Inl err"
  then show "state_controllability np A B = Inl err"
    by (rule state_controllability_eig_fails)
next
  assume "np_eig np A True False = Inr (ev, vl) \<and> 0 < ncols vl \<and> nrows vl \<noteq> nrows B"
  then show "state_controllability np A B = Inl ValueError"
    using state_controllability_rows_mismatch [of np A ev vl B] by blast
next
  assume "np_eig np A True False = Inr (ev, vl) \<and> nrows vl = nrows B \<and> 0 < ncols A
         \<and> nrows A = ncols A \<and> nrows B = ncols A"
  then show "\<exists>state_control u_p control_matrix.
             state_controllability np A B = Inr (state_control, u_p, control_matrix)"
    by (simp add: state_controllability_eq)
next
  assume "nrows Q \<noteq> nrows P \<or> nrows S \<noteq> nrows R \<or> ncols R + ncols S \<noteq> ncols P + ncols Q
         \<or> nrows P \<noteq> ncols P"
  then show "zero sp P Q R S = Inl ValueError"
    by (simp add: zero_eq)
next
  assume "\<not> (nrows Q \<noteq> nrows P \<or> nrows S \<noteq> nrows R \<or> ncols R + ncols S \<noteq> ncols P + ncols Q
         \<or> nrows P \<noteq> ncols P)"
  then show "zero sp P Q R S =
             (if nrows R \<noteq> ncols Q then Inl NonSquareMatrixError
              else sp_solve sp (sp_det sp (pencil P Q R S)))"
    by (simp add: zero_eq)
qed

lemma pencil_mismatch_example:
  "pencil (Matrix 1 [[1]]) (Matrix 2 [[0, 0]])
           (Matrix 2 [[0, 1], [0, 0]]) (Matrix 1 [[0], [1 :: complex]])
     = Matrix 3 [[Entry 1 1, Entry 0 0, Entry 0 0],
                 [Entry 0 0, Entry 0 1, Entry 0 0],
                 [Entry 0 0, Entry 0 0, Entry 0 1]]"
  by (simp add: pencil_def Ig_blocks_def block_matrix_def eye_def tabulate_def zeros_def
      nrows_def upt_2 replicate_2)

lemma det_mismatch_example:
  "det_exact (Matrix 3 [[Entry 1 1, Entry 0 0, Entry 0 0],
                 [Entry 0 0, Entry 0 1, Entry 0 0],
                 [Entry 0 0, Entry 0 0, Entry 0 (1 :: complex)]]) = [- 1, 1, 0, 0]"
  by (simp add: det_exact_def nrows_def map_matrix_def entry_poly_def numeral_3_eq_3
      minor_rows_def)

text \<open>
  Here \<open>C\<close> has two columns although \<open>A\<close> has one state, and \<open>D\<close> has one column
  although there are two inputs: \<open>zero\<close> returns a root and no error.
\<close>

theorem shape_mismatch_detection_counterexample:
  "zero sympy_exact (Matrix 1 [[1]]) (Matrix 2 [[0, 0]])
     (Matrix 2 [[0, 1], [0, 0]]) (Matrix 1 [[0], [1]]) = Inr [1]"
proof -
  let ?A = "Matrix 1 [[1 :: complex]]" and ?B = "Matrix 2 [[0, 0 :: complex]]"
  let ?C = "Matrix 2 [[0, 1], [0, 0 :: complex]]" and ?D = "Matrix 1 [[0], [1 :: complex]]"
  have "zero sympy_exact ?A ?B ?C ?D = sp_solve sympy_exact (sp_det sympy_exact (pencil ?A ?B ?C ?D))"
    by (simp add: zero_eq nrows_def)
  also have "sp_det sympy_exact (pencil ?A ?B ?C ?D) = [- 1, 1, 0, 0]"
    unfolding pencil_mismatch_example by (simp add: sympy_exact_def det_mismatch_example)
  also have "sp_solve sympy_exact [- 1, 1, 0, 0] = Inr [1]"
    by (simp add: sympy_exact_def solve_linear_def)
  finally show ?thesis .
qed

lemma eig_diagonal_not_square:
  "eig_diagonal value_of (Matrix 3 [[a, b, c], [d, e, f]]) left right = Inl ValueError"
  by (simp add: eig_diagonal_def nrows_def)

theorem shape_mismatch_detection_witness:
  "state_controllability (numpy_exact (eig_diagonal id)) (Matrix 3 [[1, 0, 0], [0, 2, 0]])
     (Matrix 1 [[1], [1], [1]])
     = Inl ValueError \<and>
   state_controllability (numpy_exact (eig_diagonal id)) (Matrix 2 [[1, 0], [0, 2]])
     (Matrix 1 [[1], [1], [1]])
     = Inl ValueError \<and>
   (\<exists>state_control u_p control_matrix.
      state_controllability (numpy_exact (eig_diagonal id)) (Matrix 2 [[1, 0], [0, 2]])
        (Matrix 1 [[1], [1]])
      = Inr (state_control, u_p, control_matrix)) \<and>
   zero sympy_exact (Matrix 1 [[1]]) (Matrix 1 [[1], [1]]) (Matrix 1 [[1]]) (Matrix 1 [[0]])
     = Inl ValueError \<and>
   zero sympy_exact (Matrix 1 [[1]]) (Matrix 2 [[0, 0]])
     (Matrix 2 [[0, 1], [0, 0]]) (Matrix 1 [[0], [1]])
     = sp_solve sympy_exact (sp_det sympy_exact (pencil (Matrix 1 [[1]]) (Matrix 2 [[0, 0]])
         (Matrix 2 [[0, 1], [0, 0]]) (Matrix 1 [[0], [1]])))"
proof -
  let ?np = "numpy_exact (eig_diagonal id)"
  let ?A = "Matrix 2 [[1, 0], [0, 2 :: complex]]" and ?B = "Matrix 1 [[1], [1], [1 :: complex]]"
  have a: "state_controllability ?np (Matrix 3 [[1, 0, 0], [0, 2, 0]]) ?B = Inl ValueError"
    by (rule shape_mismatch_detection [THEN conjunct1, rule_format])
      (simp add: numpy_exact_def eig_diagonal_not_square)
  have b: "state_controllability ?np ?A ?B = Inl ValueError"
    by (rule shape_mismatch_detection [THEN conjunct2, THEN conjunct1, rule_format,
          of ?np ?A "[1, 2]" "Matrix 2 [[1, 0], [0, 1]]"])
      (simp add: numpy_exact_def eig_diagonal_2 nrows_def)
  have e: "\<exists>state_control u_p control_matrix.
      state_controllability ?np ?A (Matrix 1 [[1], [1]])
      = Inr (state_control, u_p, control_matrix)"
    by (rule shape_mismatch_detection [THEN conjunct2, THEN conjunct2, THEN conjunct1,
          rule_format, of ?np ?A "[1, 2]" "Matrix 2 [[1, 0], [0, 1]]"])
      (simp add: numpy_exact_def eig_diagonal_2 nrows_def)
  have c: "zero sympy_exact (Matrix 1 [[1]]) (Matrix 1 [[1], [1]]) (Matrix 1 [[1]])
     (Matrix 1 [[0]]) = Inl ValueError"
    by (rule shape_mismatch_detection [THEN conjunct2, THEN conjunct2, THEN conjunct2,
          THEN conjunct1, rule_format])
      (simp add: nrows_def)
  have d: "zero sympy_exact (Matrix 1 [[1]]) (Matrix 2 [[0, 0]])
     (Matrix 2 [[0, 1], [0, 0]]) (Matrix 1 [[0], [1]])
     = sp_solve sympy_exact (sp_det sympy_exact (pencil (Matrix 1 [[1]]) (Matrix 2 [[0, 0]])
         (Matrix 2 [[0, 1], [0, 0]]) (Matrix 1 [[0], [1]])))"
    using shape_mismatch_detection [THEN conjunct2, THEN conjunct2, THEN conjunct2,
          THEN conjunct2, of "Matrix 2 [[0, 0]]" "Matrix 1 [[1]]" "Matrix 1 [[0], [1]]"
             "Matrix 2 [[0, 1], [0, 0]]" sympy_exact]
    by (simp add: nrows_def)
  from a b c d e show ?thesis by blast
qed

end
